theory Spec2Isabelle
  imports Complex_Main
begin

text \<open>
  A model of the device information panel: the information module \<open>device-info.js\<close>
  (queries on the plugin bridge with their fallbacks, formatting helpers, the network
  subscription) and the application module (preferences in the local storage, start-up,
  rendering into the document, the refresh timer). Each method is translated as it is
  written. An awaited call is modelled by its outcome, and the script runs to completion
  in program order; \<open>setupNetworkListener\<close>, which \<open>init\<close> starts without awaiting
  it, is run in place. The user actions of the application (refresh, toggling
  auto-refresh, copying, the toast) are not part of the model.
\<close>

section \<open>JavaScript basics used by the two modules\<close>

text \<open>
  Strings are byte lists holding the UTF-8 encoding of the source's literals; the
  non-ASCII literals are given byte by byte. Thrown values are the elements of
  \<open>js_error\<close>; a computation that may throw returns \<open>js_error + 'a\<close>, with \<open>Inl\<close> for
  the thrown value.
\<close>

datatype js_error = TypeError | SyntaxError | ProviderError string

text \<open>\<open>try { body } catch (error) { handler }\<close>\<close>

definition try_catch :: "js_error + 'a \<Rightarrow> (js_error \<Rightarrow> js_error + 'a) \<Rightarrow> js_error + 'a" where
  "try_catch body handler = (case body of Inl e \<Rightarrow> handler e | Inr v \<Rightarrow> Inr v)"

text \<open>Sequencing of computations that may throw (\<open>await\<close> and \<open>;\<close>).\<close>

definition bind_js :: "js_error + 'a \<Rightarrow> ('a \<Rightarrow> js_error + 'b) \<Rightarrow> js_error + 'b" where
  "bind_js m f = (case m of Inl e \<Rightarrow> Inl e | Inr v \<Rightarrow> f v)"

text \<open>Number to string, for integers (decimal digits, a minus sign when negative).\<close>

definition digit_char :: "nat \<Rightarrow> char" where
  "digit_char d = ''0123456789'' ! (d mod 10)"

fun show_nat :: "nat \<Rightarrow> string" where
  "show_nat n = (if n < 10 then [digit_char n] else show_nat (n div 10) @ [digit_char (n mod 10)])"

definition show_int :: "int \<Rightarrow> string" where
  "show_int i = (if i < 0 then CHR ''-'' # show_nat (nat (- i)) else show_nat (nat i))"

text \<open>The remainder operator \<open>%\<close> on integers: the sign follows the dividend.\<close>

definition js_rem :: "int \<Rightarrow> int \<Rightarrow> int" where
  "js_rem a b = sgn a * (\<bar>a\<bar> mod \<bar>b\<bar>)"

text \<open>
  Numbers. A JavaScript number is an IEEE 754 binary64 value. The finite ones are held
  here as the rationals they denote; NaN and the infinities are not represented. An
  arithmetic operation of the source is the exact operation followed by \<open>to_double\<close>,
  the rounding to the nearest double with a tie going to the even significand:
  \<open>ilog2 a\<close> is the binary exponent of a positive \<open>a\<close> (the \<open>k\<close> with
  \<open>2^k \<le> a < 2^(k+1)\<close>), the significand has 53 bits, so the spacing of the doubles
  around \<open>a\<close> is \<open>2^(ilog2 a - 52)\<close>, and not below \<open>2^-1074\<close> (the subnormal
  range). \<open>is_double\<close> recognises the rationals that are finite doubles; a result
  that is not one stands for an overflow, which the source turns into an infinity.
\<close>

function bit_length :: "int \<Rightarrow> int" where
  "bit_length n = (if n \<le> 0 then 0 else bit_length (n div 2) + 1)"
  by auto

termination bit_length
  by (relation "measure nat") auto

declare bit_length.simps [simp del]

definition pow2 :: "int \<Rightarrow> rat" where
  "pow2 e = (if 0 \<le> e then 2 ^ nat e else 1 / 2 ^ nat (- e))"

definition ilog2 :: "rat \<Rightarrow> int" where
  "ilog2 a =
     (let (p, q) = quotient_of a;
          k = bit_length p - bit_length q
      in if pow2 k \<le> a then k else k - 1)"

definition round_half_even :: "rat \<Rightarrow> int" where
  "round_half_even m =
     (let f = \<lfloor>m\<rfloor>; d = m - of_int f
      in if d < 1 / 2 then f else if 1 / 2 < d then f + 1
         else if even f then f else f + 1)"

definition to_double :: "rat \<Rightarrow> rat" where
  "to_double x =
     (if x = 0 then 0
      else let a = \<bar>x\<bar>; e = max (ilog2 a - 52) (- 1074)
           in sgn x * of_int (round_half_even (a / pow2 e)) * pow2 e)"

definition is_double :: "rat \<Rightarrow> bool" where
  "is_double x \<longleftrightarrow> to_double x = x \<and> ilog2 \<bar>x\<bar> < 1024"

text \<open>The operator \<open>*\<close> on numbers.\<close>

definition double_mul :: "rat \<Rightarrow> rat \<Rightarrow> rat" where
  "double_mul a b = to_double (a * b)"

text \<open>\<open>Math.round\<close>: the nearest integer, a tie going up. The result is exact.\<close>

definition Math_round :: "rat \<Rightarrow> int" where
  "Math_round x = \<lfloor>x + 1 / 2\<rfloor>"

text \<open>\<open>a || d\<close> on an optional string, number or boolean: the default replaces a
  missing (undefined) value and a falsy one (empty string, zero, false).\<close>

definition or_str :: "string option \<Rightarrow> string \<Rightarrow> string" where
  "or_str a d = (case a of None \<Rightarrow> d | Some s \<Rightarrow> if s = [] then d else s)"

definition or_num :: "rat option \<Rightarrow> rat \<Rightarrow> rat" where
  "or_num a d = (case a of None \<Rightarrow> d | Some x \<Rightarrow> if x = 0 then d else x)"

definition or_bool :: "bool option \<Rightarrow> bool \<Rightarrow> bool" where
  "or_bool a d = (case a of None \<Rightarrow> d | Some b \<Rightarrow> if b then b else d)"

section \<open>The string literals of device-info.js\<close>

definition str_tian :: string where
  "str_tian = [CHR 0xE5, CHR 0xA4, CHR 0xA9]"

definition str_xiaoshi :: string where
  "str_xiaoshi = [CHR 0xE5, CHR 0xB0, CHR 0x8F, CHR 0xE6, CHR 0x97, CHR 0xB6]"

definition str_fenzhong :: string where
  "str_fenzhong = [CHR 0xE5, CHR 0x88, CHR 0x86, CHR 0xE9, CHR 0x92, CHR 0x9F]"

definition str_miao :: string where
  "str_miao = [CHR 0xE7, CHR 0xA7, CHR 0x92]"

definition str_unknown_device :: string where
  "str_unknown_device = [CHR 0xE6, CHR 0x9C, CHR 0xAA, CHR 0xE7, CHR 0x9F, CHR 0xA5,
     CHR 0xE8, CHR 0xAE, CHR 0xBE, CHR 0xE5, CHR 0xA4, CHR 0x87]"

definition str_unknown_platform :: string where
  "str_unknown_platform = [CHR 0xE6, CHR 0x9C, CHR 0xAA, CHR 0xE7, CHR 0x9F, CHR 0xA5,
     CHR 0xE5, CHR 0xB9, CHR 0xB3, CHR 0xE5, CHR 0x8F, CHR 0xB0]"

definition str_unknown_os :: string where
  "str_unknown_os = [CHR 0xE6, CHR 0x9C, CHR 0xAA, CHR 0xE7, CHR 0x9F, CHR 0xA5,
     CHR 0xE7, CHR 0xB3, CHR 0xBB, CHR 0xE7, CHR 0xBB, CHR 0x9F]"

definition str_unknown_version :: string where
  "str_unknown_version = [CHR 0xE6, CHR 0x9C, CHR 0xAA, CHR 0xE7, CHR 0x9F, CHR 0xA5,
     CHR 0xE7, CHR 0x89, CHR 0x88, CHR 0xE6, CHR 0x9C, CHR 0xAC]"

definition str_unknown_vendor :: string where
  "str_unknown_vendor = [CHR 0xE6, CHR 0x9C, CHR 0xAA, CHR 0xE7, CHR 0x9F, CHR 0xA5,
     CHR 0xE5, CHR 0x8E, CHR 0x82, CHR 0xE5, CHR 0x95, CHR 0x86]"

definition str_unknown :: string where
  "str_unknown = [CHR 0xE6, CHR 0x9C, CHR 0xAA, CHR 0xE7, CHR 0x9F, CHR 0xA5]"

definition str_ios_device :: string where
  "str_ios_device = ''iOS '' @ [CHR 0xE8, CHR 0xAE, CHR 0xBE, CHR 0xE5, CHR 0xA4, CHR 0x87]"

definition str_cannot_get :: string where
  "str_cannot_get = [CHR 0xE6, CHR 0x97, CHR 0xA0, CHR 0xE6, CHR 0xB3, CHR 0x95,
     CHR 0xE8, CHR 0x8E, CHR 0xB7, CHR 0xE5, CHR 0x8F, CHR 0x96]"

definition str_not_connected :: string where
  "str_not_connected = [CHR 0xE6, CHR 0x9C, CHR 0xAA, CHR 0xE8, CHR 0xBF, CHR 0x9E,
     CHR 0xE6, CHR 0x8E, CHR 0xA5]"

definition str_cellular :: string where
  "str_cellular = [CHR 0xE8, CHR 0x9C, CHR 0x82, CHR 0xE7, CHR 0xAA, CHR 0x9D,
     CHR 0xE7, CHR 0xBD, CHR 0x91, CHR 0xE7, CHR 0xBB, CHR 0x9C]"

definition str_no_network :: string where
  "str_no_network = [CHR 0xE6, CHR 0x97, CHR 0xA0, CHR 0xE7, CHR 0xBD, CHR 0x91,
     CHR 0xE7, CHR 0xBB, CHR 0x9C]"

definition str_just_started :: string where
  "str_just_started = [CHR 0xE5, CHR 0x88, CHR 0x9A, CHR 0xE5, CHR 0x88, CHR 0x9A,
     CHR 0xE5, CHR 0x90, CHR 0xAF, CHR 0xE5, CHR 0x8A, CHR 0xA8]"

definition str_charging :: string where
  "str_charging = [CHR 0xF0, CHR 0x9F, CHR 0x94, CHR 0x8C, CHR 0xE5, CHR 0x85, CHR 0x85,
     CHR 0xE7, CHR 0x94, CHR 0xB5, CHR 0xE4, CHR 0xB8, CHR 0xAD]"

definition str_not_charging :: string where
  "str_not_charging = [CHR 0xF0, CHR 0x9F, CHR 0x94, CHR 0x8B, CHR 0xE6, CHR 0x9C, CHR 0xAA,
     CHR 0xE5, CHR 0x85, CHR 0x85, CHR 0xE7, CHR 0x94, CHR 0xB5]"

section \<open>device-info.js: the capability providers\<close>

text \<open>
  What the plugin bridge hands back. Every provider call is an awaited promise: it
  rejects (\<open>Inl\<close>), resolves to null or undefined (\<open>Inr None\<close>) or resolves to an
  object (\<open>Inr (Some r)\<close>). A field the code guards with \<open>||\<close> is optional.
  \<open>addListener\<close> resolves to a handle, given by what the \<open>remove()\<close> of that
  handle will do. Calls whose result the code does not read resolve to \<open>()\<close>.
\<close>

record raw_info =
  info_model :: "string option"
  info_platform :: "string option"
  info_operatingSystem :: "string option"
  info_osVersion :: "string option"
  info_manufacturer :: "string option"
  info_isVirtual :: "bool option"

record raw_battery =
  batteryLevel :: "rat option"
  isCharging :: "bool option"

record raw_status =
  status_connected :: bool
  status_connectionType :: "string option"

record device_plugin =
  getInfo :: "js_error + raw_info option"
  getBatteryInfo :: "js_error + raw_battery option"

record network_plugin =
  getStatus :: "js_error + raw_status option"
  addListener :: "js_error + (js_error + unit)"

record haptics_plugin =
  impact :: "js_error + unit"

record notifications_plugin =
  requestPermissions :: "js_error + unit"
  schedule :: "js_error + unit"

record clipboard_plugin =
  clipboard_write :: "js_error + unit"

record plugins =
  Device :: "device_plugin option"
  Network :: "network_plugin option"
  Haptics :: "haptics_plugin option"
  LocalNotifications :: "notifications_plugin option"
  Clipboard :: "clipboard_plugin option"

text \<open>\<open>window.Capacitor && window.Capacitor.Plugins\<close>: the bridge, when injected.\<close>

record window =
  Capacitor_Plugins :: "plugins option"

definition getPlugins :: "window \<Rightarrow> plugins option" where
  "getPlugins w = (case Capacitor_Plugins w of
       Some p \<Rightarrow> Some \<lparr>Device = Device p, Network = Network p, Haptics = Haptics p,
                        LocalNotifications = LocalNotifications p,
                        Clipboard = Clipboard p\<rparr>
     | None \<Rightarrow> None)"

section \<open>device-info.js: the snapshot and the queries\<close>

record battery =
  level :: "rat option"
  charging :: "bool option"

record network_status =
  connected :: bool
  connectionType :: "string option"
  typeText :: "string option"

record device_info =
  model :: string
  platform :: string
  operatingSystem :: string
  osVersion :: string
  manufacturer :: string
  isVirtual :: bool
  battery :: "battery option"

definition getFallbackDeviceInfo :: device_info where
  "getFallbackDeviceInfo =
     \<lparr>model = str_ios_device, platform = ''ios'', operatingSystem = ''iOS'',
      osVersion = str_unknown, manufacturer = ''Apple'', isVirtual = False,
      battery = Some \<lparr>level = Some 1, charging = Some False\<rparr>\<rparr>"

definition getDeviceInfo :: "window \<Rightarrow> js_error + device_info" where
  "getDeviceInfo w =
     (case getPlugins w of
        None \<Rightarrow> Inr getFallbackDeviceInfo
      | Some plugins \<Rightarrow>
         (case Device plugins of
            None \<Rightarrow> Inr getFallbackDeviceInfo
          | Some dev \<Rightarrow>
              try_catch
                (bind_js (getInfo dev) (\<lambda>info.
                 bind_js (getBatteryInfo dev) (\<lambda>batteryId.
                   case info of
                     None \<Rightarrow> Inl TypeError
                   | Some i \<Rightarrow>
                      (case batteryId of
                         None \<Rightarrow> Inl TypeError
                       | Some b \<Rightarrow> Inr
                          \<lparr>model = or_str (info_model i) str_unknown_device,
                           platform = or_str (info_platform i) str_unknown_platform,
                           operatingSystem = or_str (info_operatingSystem i) str_unknown_os,
                           osVersion = or_str (info_osVersion i) str_unknown_version,
                           manufacturer = or_str (info_manufacturer i) str_unknown_vendor,
                           isVirtual = or_bool (info_isVirtual i) False,
                           battery = Some \<lparr>level = Some (or_num (batteryLevel b) 1),
                                            charging = Some (or_bool (isCharging b) False)\<rparr>\<rparr>))))
                (\<lambda>error. Inr getFallbackDeviceInfo)))"

definition getFallbackNetworkStatus :: network_status where
  "getFallbackNetworkStatus =
     \<lparr>connected = False, connectionType = Some ''none'', typeText = Some str_cannot_get\<rparr>"

definition getNetworkTypeText :: "string option \<Rightarrow> bool \<Rightarrow> string" where
  "getNetworkTypeText type conn =
     (if \<not> conn then str_not_connected
      else or_str (case type of
                     None \<Rightarrow> None
                   | Some t \<Rightarrow> map_of [(''wifi'', ''Wi-Fi''), (''cellular'', str_cellular),
                                        (''none'', str_no_network), (''unknown'', str_unknown)] t)
             str_unknown)"

definition getNetworkStatus :: "window \<Rightarrow> js_error + network_status" where
  "getNetworkStatus w =
     (case getPlugins w of
        None \<Rightarrow> Inr getFallbackNetworkStatus
      | Some plugins \<Rightarrow>
         (case Network plugins of
            None \<Rightarrow> Inr getFallbackNetworkStatus
          | Some net \<Rightarrow>
              try_catch
                (bind_js (getStatus net) (\<lambda>status.
                   case status of
                     None \<Rightarrow> Inl TypeError
                   | Some s \<Rightarrow> Inr
                      \<lparr>connected = status_connected s,
                       connectionType = Some (or_str (status_connectionType s) ''unknown''),
                       typeText = Some (getNetworkTypeText (status_connectionType s)
                                          (status_connected s))\<rparr>))
                (\<lambda>error. Inr getFallbackNetworkStatus)))"

text \<open>The three actions on the device. The haptic pulse and the notification return
  nothing; what is passed to the provider does not change what the caller sees.\<close>

definition hapticFeedback :: "window \<Rightarrow> string \<Rightarrow> js_error + unit" where
  "hapticFeedback w style =
     (case getPlugins w of
        None \<Rightarrow> Inr ()
      | Some plugins \<Rightarrow>
         (case Haptics plugins of
            None \<Rightarrow> Inr ()
          | Some h \<Rightarrow> try_catch (impact h) (\<lambda>error. Inr ())))"

definition sendNotification :: "window \<Rightarrow> string \<Rightarrow> string \<Rightarrow> js_error + unit" where
  "sendNotification w title body =
     (case getPlugins w of
        None \<Rightarrow> Inr ()
      | Some plugins \<Rightarrow>
         (case LocalNotifications plugins of
            None \<Rightarrow> Inr ()
          | Some n \<Rightarrow> try_catch (schedule n) (\<lambda>error. Inr ())))"

definition copyToClipboard :: "window \<Rightarrow> string \<Rightarrow> js_error + bool" where
  "copyToClipboard w text =
     (case getPlugins w of
        None \<Rightarrow> Inr False
      | Some plugins \<Rightarrow>
         (case Clipboard plugins of
            None \<Rightarrow> Inr False
          | Some clip \<Rightarrow>
              try_catch (bind_js (clipboard_write clip) (\<lambda>_. Inr True))
                (\<lambda>error. Inr False)))"

definition getAppVersion :: string where
  "getAppVersion = ''1.0.0''"

text \<open>
  \<open>getUptime\<close> reads the clock (\<open>Date.now()\<close>, in milliseconds) and the item
  \<open>appStartTime\<close> of the local storage, a decimal timestamp given here by its number
  (\<open>None\<close> when the item is absent, and then the current time stands in for it).
\<close>

definition getUptime :: "int option \<Rightarrow> int \<Rightarrow> string" where
  "getUptime appStartTime now =
     (let startTime = (case appStartTime of Some t \<Rightarrow> t | None \<Rightarrow> now);
          elapsed = now - startTime;
          seconds = elapsed div 1000;
          minutes = seconds div 60;
          hours = minutes div 60;
          days = hours div 24
      in if days > 0 then show_int days @ str_tian @ '' '' @ show_int (js_rem hours 24) @ str_xiaoshi
         else if hours > 0 then
           show_int hours @ str_xiaoshi @ '' '' @ show_int (js_rem minutes 60) @ str_fenzhong
         else if minutes > 0 then
           show_int minutes @ str_fenzhong @ '' '' @ show_int (js_rem seconds 60) @ str_miao
         else show_int seconds @ str_miao)"

record battery_display =
  bd_level :: int
  bd_charging :: bool
  bd_levelClass :: string
  bd_text :: string

text \<open>\<open>info.battery?.level || 1\<close> and \<open>info.battery?.charging || false\<close>; the
  percentage is \<open>Math.round\<close> of the product of the two doubles, taken to be finite.\<close>

definition formatBatteryInfo :: "'a device_info_scheme \<Rightarrow> battery_display" where
  "formatBatteryInfo info =
     (let lv = Math_round (double_mul (or_num (case battery info of None \<Rightarrow> None | Some b \<Rightarrow> level b) 1) 100);
          ch = or_bool (case battery info of None \<Rightarrow> None | Some b \<Rightarrow> charging b) False;
          levelClass = (if lv > 50 then ''high'' else if lv > 20 then ''medium'' else ''low'')
      in \<lparr>bd_level = lv, bd_charging = ch, bd_levelClass = levelClass,
          bd_text = show_int lv @ ''% '' @ (if ch then str_charging else str_not_charging)\<rparr>)"

section \<open>JavaScript values and JSON\<close>

text \<open>
  The preferences are whatever \<open>JSON.parse\<close> returns, so they are a dynamically typed
  value. An object is the list of its own properties in insertion order; numbers are
  exact rationals. \<open>JSON.parse\<close> and \<open>JSON.stringify\<close> are built-ins of the
  platform, not code of the two modules; they are written out here after ECMA-262 so
  that stored text can be evaluated. Where the model idealises: a number is not rounded
  to a double, a non-integer number is printed by its decimal expansion (cut at 17
  digits) and an integer always in plain decimal (ECMA-262 switches to exponent form
  from \<open>10^21\<close> on), property keys that are array indices are not moved to the front,
  and an escape \<open>\uXXXX\<close> is decoded to the UTF-8 bytes of that code unit on its own.
\<close>

datatype jsval = Undefined | Null | Bool bool | Num rat | Str string
  | Arr "jsval list" | Obj "(string \<times> jsval) list"

definition truthy :: "jsval \<Rightarrow> bool" where
  "truthy v = (case v of Undefined \<Rightarrow> False | Null \<Rightarrow> False | Bool b \<Rightarrow> b
      | Num x \<Rightarrow> x \<noteq> 0 | Str s \<Rightarrow> s \<noteq> [] | Arr _ \<Rightarrow> True | Obj _ \<Rightarrow> True)"

definition get_prop :: "jsval \<Rightarrow> string \<Rightarrow> js_error + jsval" where
  "get_prop v k = (case v of Undefined \<Rightarrow> Inl TypeError | Null \<Rightarrow> Inl TypeError
      | Obj kvs \<Rightarrow> Inr (case map_of kvs k of Some x \<Rightarrow> x | None \<Rightarrow> Undefined)
      | _ \<Rightarrow> Inr Undefined)"

definition is_ws :: "char \<Rightarrow> bool" where
  "is_ws c = (c = CHR '' '' \<or> c = CHR 0x09 \<or> c = CHR 0x0A \<or> c = CHR 0x0D)"

definition skip_ws :: "string \<Rightarrow> string" where
  "skip_ws s = dropWhile is_ws s"

definition is_digit :: "char \<Rightarrow> bool" where
  "is_digit c = (c \<in> set ''0123456789'')"

definition digit_val :: "char \<Rightarrow> nat" where
  "digit_val c = of_char c - 48"

definition nat_of_digits :: "string \<Rightarrow> nat" where
  "nat_of_digits ds = foldl (\<lambda>a c. 10 * a + digit_val c) 0 ds"

definition parse_int_part :: "string \<Rightarrow> (nat \<times> string) option" where
  "parse_int_part s =
     (case s of
        [] \<Rightarrow> None
      | c # cs \<Rightarrow>
          if c = CHR ''0'' then Some (0, cs)
          else if is_digit c then Some (nat_of_digits (takeWhile is_digit s), dropWhile is_digit s)
          else None)"

definition parse_fraction :: "string \<Rightarrow> (rat \<times> string) option" where
  "parse_fraction s =
     (case s of
        [] \<Rightarrow> Some (0, s)
      | c # cs \<Rightarrow>
          if c = CHR ''.'' then
            (let fs = takeWhile is_digit cs in
             if fs = [] then None
             else Some (of_nat (nat_of_digits fs) / 10 ^ length fs, dropWhile is_digit cs))
          else Some (0, s))"

definition parse_exponent :: "string \<Rightarrow> ((bool \<times> nat) \<times> string) option" where
  "parse_exponent s =
     (case s of
        [] \<Rightarrow> Some ((False, 0), s)
      | c # cs \<Rightarrow>
          if c = CHR ''e'' \<or> c = CHR ''E'' then
            (let (neg, ds) = (case cs of
                                [] \<Rightarrow> (False, cs)
                              | d # r \<Rightarrow> if d = CHR ''-'' then (True, r)
                                         else if d = CHR ''+'' then (False, r) else (False, cs));
                 es = takeWhile is_digit ds
             in if es = [] then None
                else Some ((neg, nat_of_digits es), dropWhile is_digit ds))
          else Some ((False, 0), s))"

definition parse_number :: "string \<Rightarrow> (rat \<times> string) option" where
  "parse_number s =
     (let (neg, s1) = (case s of [] \<Rightarrow> (False, s)
                       | c # cs \<Rightarrow> if c = CHR ''-'' then (True, cs) else (False, s))
      in case parse_int_part s1 of
           None \<Rightarrow> None
         | Some (ip, s2) \<Rightarrow>
            (case parse_fraction s2 of
               None \<Rightarrow> None
             | Some (fr, s3) \<Rightarrow>
                (case parse_exponent s3 of
                   None \<Rightarrow> None
                 | Some ((eneg, ex), s4) \<Rightarrow>
                     Some ((if neg then - 1 else 1) * (of_nat ip + fr)
                             * (if eneg then 1 / 10 ^ ex else 10 ^ ex), s4))))"

definition hex_val :: "char \<Rightarrow> nat option" where
  "hex_val c =
     (let n = of_char c :: nat in
      if 48 \<le> n \<and> n \<le> 57 then Some (n - 48)
      else if 65 \<le> n \<and> n \<le> 70 then Some (n - 55)
      else if 97 \<le> n \<and> n \<le> 102 then Some (n - 87)
      else None)"

definition utf8_encode :: "nat \<Rightarrow> string" where
  "utf8_encode cp =
     (if cp < 0x80 then [char_of cp]
      else if cp < 0x800 then [char_of (0xC0 + cp div 64), char_of (0x80 + cp mod 64)]
      else [char_of (0xE0 + cp div 4096), char_of (0x80 + cp div 64 mod 64),
            char_of (0x80 + cp mod 64)])"

fun parse_chars :: "string \<Rightarrow> (string \<times> string) option" where
  "parse_chars [] = None"
| "parse_chars [c] = (if c = CHR 0x22 then Some ([], []) else None)"
| "parse_chars (c # e # cs) =
     (if c = CHR 0x22 then Some ([], e # cs)
      else if c = CHR 0x5C then
        (if e = CHR ''u'' then
           (case cs of
              h1 # h2 # h3 # h4 # rest \<Rightarrow>
                (case (hex_val h1, hex_val h2, hex_val h3, hex_val h4) of
                   (Some a, Some b, Some c', Some d) \<Rightarrow>
                     map_option (\<lambda>(t, r). (utf8_encode (4096 * a + 256 * b + 16 * c' + d) @ t, r))
                       (parse_chars rest)
                 | _ \<Rightarrow> None)
            | _ \<Rightarrow> None)
         else
           (case map_of [(CHR 0x22, CHR 0x22), (CHR 0x5C, CHR 0x5C), (CHR ''/'', CHR ''/''),
                         (CHR ''b'', CHR 0x08), (CHR ''f'', CHR 0x0C), (CHR ''n'', CHR 0x0A),
                         (CHR ''r'', CHR 0x0D), (CHR ''t'', CHR 0x09)] e of
              Some x \<Rightarrow> map_option (\<lambda>(t, r). (x # t, r)) (parse_chars cs)
            | None \<Rightarrow> None))
      else if (of_char c :: nat) < 32 then None
      else map_option (\<lambda>(t, r). (c # t, r)) (parse_chars (e # cs)))"

definition obj_put :: "(string \<times> jsval) list \<Rightarrow> string \<Rightarrow> jsval \<Rightarrow> (string \<times> jsval) list" where
  "obj_put kvs k v =
     (if k \<in> fst ` set kvs then map (\<lambda>kv. if fst kv = k then (k, v) else kv) kvs
      else kvs @ [(k, v)])"

fun parse_value :: "nat \<Rightarrow> string \<Rightarrow> (jsval \<times> string) option"
  and parse_elements :: "nat \<Rightarrow> jsval list \<Rightarrow> string \<Rightarrow> (jsval list \<times> string) option"
  and parse_members ::
    "nat \<Rightarrow> (string \<times> jsval) list \<Rightarrow> string \<Rightarrow> ((string \<times> jsval) list \<times> string) option"
where
  "parse_value 0 s = None"
| "parse_value (Suc f) s =
     (case skip_ws s of
        [] \<Rightarrow> None
      | c # cs \<Rightarrow>
          if c = CHR ''{'' then
            (case skip_ws cs of
               [] \<Rightarrow> None
             | d # ds \<Rightarrow> if d = CHR ''}'' then Some (Obj [], ds)
                        else map_option (\<lambda>(kvs, r). (Obj kvs, r)) (parse_members f [] cs))
          else if c = CHR ''['' then
            (case skip_ws cs of
               [] \<Rightarrow> None
             | d # ds \<Rightarrow> if d = CHR '']'' then Some (Arr [], ds)
                        else map_option (\<lambda>(vs, r). (Arr vs, r)) (parse_elements f [] cs))
          else if c = CHR 0x22 then map_option (\<lambda>(t, r). (Str t, r)) (parse_chars cs)
          else if c = CHR ''-'' \<or> is_digit c then
            map_option (\<lambda>(x, r). (Num x, r)) (parse_number (c # cs))
          else if take 4 (c # cs) = ''null'' then Some (Null, drop 4 (c # cs))
          else if take 4 (c # cs) = ''true'' then Some (Bool True, drop 4 (c # cs))
          else if take 5 (c # cs) = ''false'' then Some (Bool False, drop 5 (c # cs))
          else None)"
| "parse_elements 0 acc s = None"
| "parse_elements (Suc f) acc s =
     (case parse_value f s of
        None \<Rightarrow> None
      | Some (v, r) \<Rightarrow>
         (case skip_ws r of
            [] \<Rightarrow> None
          | c # cs \<Rightarrow> if c = CHR '','' then parse_elements f (acc @ [v]) cs
                     else if c = CHR '']'' then Some (acc @ [v], cs)
                     else None))"
| "parse_members 0 acc s = None"
| "parse_members (Suc f) acc s =
     (case skip_ws s of
        [] \<Rightarrow> None
      | c # cs \<Rightarrow>
          if c = CHR 0x22 then
            (case parse_chars cs of
               None \<Rightarrow> None
             | Some (k, r1) \<Rightarrow>
                (case skip_ws r1 of
                   [] \<Rightarrow> None
                 | d # ds \<Rightarrow>
                     if d = CHR '':'' then
                       (case parse_value f ds of
                          None \<Rightarrow> None
                        | Some (v, r2) \<Rightarrow>
                           (case skip_ws r2 of
                              [] \<Rightarrow> None
                            | e # es \<Rightarrow>
                                if e = CHR '','' then parse_members f (obj_put acc k v) es
                                else if e = CHR ''}'' then Some (obj_put acc k v, es)
                                else None))
                     else None))
          else None)"

definition JSON_parse :: "string \<Rightarrow> js_error + jsval" where
  "JSON_parse text =
     (case parse_value (Suc (length text)) text of
        None \<Rightarrow> Inl SyntaxError
      | Some (v, r) \<Rightarrow> if skip_ws r = [] then Inr v else Inl SyntaxError)"

definition hex_digit :: "nat \<Rightarrow> char" where
  "hex_digit d = ''0123456789abcdef'' ! (d mod 16)"

definition quote_char :: "char \<Rightarrow> string" where
  "quote_char c =
     (if c = CHR 0x22 then [CHR 0x5C, CHR 0x22]
      else if c = CHR 0x5C then [CHR 0x5C, CHR 0x5C]
      else if c = CHR 0x08 then [CHR 0x5C, CHR ''b'']
      else if c = CHR 0x0C then [CHR 0x5C, CHR ''f'']
      else if c = CHR 0x0A then [CHR 0x5C, CHR ''n'']
      else if c = CHR 0x0D then [CHR 0x5C, CHR ''r'']
      else if c = CHR 0x09 then [CHR 0x5C, CHR ''t'']
      else if (of_char c :: nat) < 32 then
        [CHR 0x5C, CHR ''u'', CHR ''0'', CHR ''0'', hex_digit (of_char c div 16), hex_digit (of_char c)]
      else [c])"

definition JSON_quote :: "string \<Rightarrow> string" where
  "JSON_quote s = CHR 0x22 # concat (map quote_char s) @ [CHR 0x22]"

fun frac_digits :: "nat \<Rightarrow> rat \<Rightarrow> string" where
  "frac_digits 0 x = []"
| "frac_digits (Suc n) x =
     (if x = 0 then []
      else digit_char (nat \<lfloor>x * 10\<rfloor>) # frac_digits n (x * 10 - of_int \<lfloor>x * 10\<rfloor>))"

definition show_num :: "rat \<Rightarrow> string" where
  "show_num x =
     (if x = of_int \<lfloor>x\<rfloor> then show_int \<lfloor>x\<rfloor>
      else (if x < 0 then ''-'' else []) @ show_nat (nat \<lfloor>\<bar>x\<bar>\<rfloor>) @ ''.''
           @ frac_digits 17 (\<bar>x\<bar> - of_int \<lfloor>\<bar>x\<bar>\<rfloor>))"

fun join_comma :: "string list \<Rightarrow> string" where
  "join_comma [] = []"
| "join_comma [x] = x"
| "join_comma (x # y # ys) = x @ '','' @ join_comma (y # ys)"

fun JSON_stringify :: "jsval \<Rightarrow> string option" where
  "JSON_stringify Undefined = None"
| "JSON_stringify Null = Some ''null''"
| "JSON_stringify (Bool b) = Some (if b then ''true'' else ''false'')"
| "JSON_stringify (Num x) = Some (show_num x)"
| "JSON_stringify (Str s) = Some (JSON_quote s)"
| "JSON_stringify (Arr vs) =
     Some (''['' @ join_comma (map (\<lambda>v. case JSON_stringify v of None \<Rightarrow> ''null'' | Some t \<Rightarrow> t) vs)
           @ '']'')"
| "JSON_stringify (Obj kvs) =
     Some (''{'' @ join_comma (concat (map (\<lambda>kv. case JSON_stringify (snd kv) of
                                               None \<Rightarrow> []
                                             | Some t \<Rightarrow> [JSON_quote (fst kv) @ '':'' @ t]) kvs))
           @ ''}'')"

section \<open>device-info.js: the aggregate snapshot\<close>

record snapshot = device_info +
  network :: "network_status option"
  appVersion :: string
  uptime :: string

definition getFallbackInfo :: snapshot where
  "getFallbackInfo =
     \<lparr>model = model getFallbackDeviceInfo, platform = platform getFallbackDeviceInfo,
      operatingSystem = operatingSystem getFallbackDeviceInfo,
      osVersion = osVersion getFallbackDeviceInfo,
      manufacturer = manufacturer getFallbackDeviceInfo,
      isVirtual = isVirtual getFallbackDeviceInfo, battery = battery getFallbackDeviceInfo,
      network = Some getFallbackNetworkStatus, appVersion = ''1.0.0'',
      uptime = str_just_started\<rparr>"

record network_display =
  nd_connected :: bool
  nd_type :: string
  nd_text :: string
  nd_statusClass :: string

definition formatNetworkInfo :: "snapshot \<Rightarrow> network_display" where
  "formatNetworkInfo info =
     (let conn = or_bool (map_option connected (network info)) False
      in \<lparr>nd_connected = conn,
          nd_type = or_str (case network info of None \<Rightarrow> None | Some n \<Rightarrow> connectionType n)
                      ''unknown'',
          nd_text = or_str (case network info of None \<Rightarrow> None | Some n \<Rightarrow> typeText n)
                      str_unknown,
          nd_statusClass = (if conn then ''connected'' else ''disconnected'')\<rparr>)"

section \<open>The running page: storage, document, timers, subscriptions\<close>

text \<open>
  The local storage holds the two items the program uses: \<open>appStartTime\<close>, a decimal
  timestamp given by its number, and \<open>appPreferences\<close>, a text.
\<close>

record storage =
  appStartTime :: "int option"
  appPreferences :: "string option"

text \<open>
  The document maps an element id to the element: its class list and its content. The
  markup the program writes is kept abstract, one constructor per template.
\<close>

datatype content =
    Blank
  | ShellMarkup
  | Spinner
  | Buttons bool
  | ErrorView string
  | DeviceView snapshot
  | BatteryView battery_display
  | NetworkView network_display
  | AppView string string

record element =
  classes :: "string set"
  innerHTML :: content

text \<open>
  Interval timers are numbered from 1 in the order \<open>setInterval\<close> creates them. A
  timer runs either the refresh callback of \<open>startAutoRefresh\<close> or the one-second
  uptime tick. A network subscription is known by the number of its handle; the handle
  also fixes what its \<open>remove()\<close> will do.
\<close>

datatype callback = RefreshTick | UptimeTick

record timer =
  callback :: callback
  delay :: jsval

record listener_handle =
  handle_id :: nat
  handle_remove :: "js_error + unit"

record app_state =
  deviceInfo :: "snapshot option"
  autoRefresh :: bool
  refreshInterval :: "nat option"
  preferences :: jsval

record sys =
  state :: app_state
  cachedInfo :: "snapshot option"
  networkListener :: "listener_handle option"
  localStorage :: storage
  document :: "string \<rightharpoonup> element"
  intervals :: "nat \<rightharpoonup> timer"
  last_interval :: nat
  subscriptions :: "nat set"
  last_handle :: nat

text \<open>
  A method that changes the page is a function from the page to an outcome and the page
  after it; what was changed before a throw stays changed.
\<close>

type_synonym 'a js = "sys \<Rightarrow> (js_error + 'a) \<times> sys"

definition ret :: "'a \<Rightarrow> 'a js" where
  "ret x = (\<lambda>s. (Inr x, s))"

definition lift :: "js_error + 'a \<Rightarrow> 'a js" where
  "lift r = (\<lambda>s. (r, s))"

definition reads :: "(sys \<Rightarrow> 'a) \<Rightarrow> 'a js" where
  "reads f = (\<lambda>s. (Inr (f s), s))"

definition update :: "(sys \<Rightarrow> sys) \<Rightarrow> unit js" where
  "update f = (\<lambda>s. (Inr (), f s))"

definition andThen :: "'a js \<Rightarrow> ('a \<Rightarrow> 'b js) \<Rightarrow> 'b js" where
  "andThen m f = (\<lambda>s. case m s of (Inl e, s') \<Rightarrow> (Inl e, s') | (Inr v, s') \<Rightarrow> f v s')"

definition seq :: "unit js \<Rightarrow> 'b js \<Rightarrow> 'b js" where
  "seq m n = andThen m (\<lambda>_. n)"

definition tryCatch :: "'a js \<Rightarrow> (js_error \<Rightarrow> 'a js) \<Rightarrow> 'a js" where
  "tryCatch m h = (\<lambda>s. case m s of (Inl e, s') \<Rightarrow> h e s' | (Inr v, s') \<Rightarrow> (Inr v, s'))"

definition setInterval :: "callback \<Rightarrow> jsval \<Rightarrow> nat js" where
  "setInterval cb d =
     (\<lambda>s. let t = Suc (last_interval s)
          in (Inr t, s\<lparr>intervals := (intervals s)(t \<mapsto> \<lparr>callback = cb, delay = d\<rparr>),
                       last_interval := t\<rparr>))"

definition clearInterval :: "nat \<Rightarrow> unit js" where
  "clearInterval t = update (\<lambda>s. s\<lparr>intervals := (intervals s)(t := None)\<rparr>)"

section \<open>device-info.js: state-changing operations\<close>

definition DeviceInfo_init :: "window \<Rightarrow> unit js" where
  "DeviceInfo_init w =
     tryCatch
       (case getPlugins w of
          None \<Rightarrow> ret ()
        | Some plugins \<Rightarrow>
           (case LocalNotifications plugins of
              None \<Rightarrow> ret ()
            | Some n \<Rightarrow> lift (requestPermissions n)))
       (\<lambda>error. ret ())"

definition getAllInfo :: "window \<Rightarrow> int \<Rightarrow> snapshot js" where
  "getAllInfo w now =
     tryCatch
       (andThen (lift (getDeviceInfo w)) (\<lambda>d.
        andThen (lift (getNetworkStatus w)) (\<lambda>networkStatus.
        andThen (reads (\<lambda>s. getUptime (appStartTime (localStorage s)) now)) (\<lambda>up.
          let info = \<lparr>model = model d, platform = platform d,
                      operatingSystem = operatingSystem d, osVersion = osVersion d,
                      manufacturer = manufacturer d, isVirtual = isVirtual d,
                      battery = battery d, network = Some networkStatus,
                      appVersion = getAppVersion, uptime = up\<rparr>
          in seq (update (\<lambda>s. s\<lparr>cachedInfo := Some info\<rparr>)) (ret info)))))
       (\<lambda>error. ret getFallbackInfo)"

definition addNetworkListener :: "window \<Rightarrow> unit js" where
  "addNetworkListener w =
     (case getPlugins w of
        None \<Rightarrow> ret ()
      | Some plugins \<Rightarrow>
         (case Network plugins of
            None \<Rightarrow> ret ()
          | Some net \<Rightarrow>
              tryCatch
                (andThen (lift (addListener net)) (\<lambda>r. update (\<lambda>s.
                   let h = Suc (last_handle s)
                   in s\<lparr>subscriptions := insert h (subscriptions s), last_handle := h,
                        networkListener := Some \<lparr>handle_id = h, handle_remove = r\<rparr>\<rparr>)))
                (\<lambda>error. ret ())))"

definition removeNetworkListener :: "unit js" where
  "removeNetworkListener =
     (\<lambda>s. case networkListener s of
        None \<Rightarrow> (Inr (), s)
      | Some h \<Rightarrow>
          tryCatch
            (seq (lift (handle_remove h))
               (update (\<lambda>s. s\<lparr>subscriptions := subscriptions s - {handle_id h},
                                networkListener := None\<rparr>)))
            (\<lambda>error. ret ()) s)"

section \<open>The application (the second module)\<close>

definition str_init_failed :: string where
  "str_init_failed = [CHR 0xE5, CHR 0x88, CHR 0x9D, CHR 0xE5, CHR 0xA7, CHR 0x8B,
     CHR 0xE5, CHR 0x8C, CHR 0x96, CHR 0xE5, CHR 0xA4, CHR 0xB1, CHR 0xE8, CHR 0xB4, CHR 0xA5,
     CHR 0xEF, CHR 0xBC, CHR 0x8C, CHR 0xE8, CHR 0xAF, CHR 0xB7, CHR 0xE5, CHR 0x88, CHR 0xB7,
     CHR 0xE6, CHR 0x96, CHR 0xB0, CHR 0xE9, CHR 0xA1, CHR 0xB5, CHR 0xE9, CHR 0x9D, CHR 0xA2,
     CHR 0xE9, CHR 0x87, CHR 0x8D, CHR 0xE8, CHR 0xAF, CHR 0x95]"

definition str_load_failed :: string where
  "str_load_failed = [CHR 0xE5, CHR 0x8A, CHR 0xA0, CHR 0xE8, CHR 0xBD, CHR 0xBD,
     CHR 0xE8, CHR 0xAE, CHR 0xBE, CHR 0xE5, CHR 0xA4, CHR 0x87, CHR 0xE4, CHR 0xBF, CHR 0xA1,
     CHR 0xE6, CHR 0x81, CHR 0xAF, CHR 0xE5, CHR 0xA4, CHR 0xB1, CHR 0xE8, CHR 0xB4, CHR 0xA5]"

definition getDefaultPreferences :: jsval where
  "getDefaultPreferences =
     Obj [(''autoRefresh'', Bool False), (''refreshInterval'', Num 30000),
          (''showBattery'', Bool True), (''showNetwork'', Bool True), (''showUptime'', Bool True)]"

definition set_preferences :: "jsval \<Rightarrow> unit js" where
  "set_preferences v = update (\<lambda>s. s\<lparr>state := (state s)\<lparr>preferences := v\<rparr>\<rparr>)"

definition loadPreferences :: "unit js" where
  "loadPreferences =
     (\<lambda>s. case appPreferences (localStorage s) of
        None \<Rightarrow> set_preferences getDefaultPreferences s
      | Some saved \<Rightarrow>
          if saved \<noteq> [] then
            tryCatch (andThen (lift (JSON_parse saved)) set_preferences)
              (\<lambda>error. set_preferences getDefaultPreferences) s
          else set_preferences getDefaultPreferences s)"

text \<open>\<open>setItem\<close> stores the text of its argument: a \<open>JSON.stringify\<close> that returns
  undefined stores the text "undefined".\<close>

definition savePreferences :: "unit js" where
  "savePreferences =
     update (\<lambda>s. s\<lparr>localStorage := (localStorage s)
        \<lparr>appPreferences := Some (case JSON_stringify (preferences (state s)) of
                                   None \<Rightarrow> ''undefined'' | Some t \<Rightarrow> t)\<rparr>\<rparr>)"

text \<open>Element access: \<open>getElementById\<close> returns null for an unknown id, and using
  the property of null throws.\<close>

definition on_element :: "string \<Rightarrow> (element \<Rightarrow> element) \<Rightarrow> unit js" where
  "on_element i f =
     (\<lambda>s. case document s i of
        None \<Rightarrow> (Inl TypeError, s)
      | Some el \<Rightarrow> (Inr (), s\<lparr>document := (document s)(i \<mapsto> f el)\<rparr>))"

definition classList_add :: "string \<Rightarrow> string \<Rightarrow> unit js" where
  "classList_add i c = on_element i (\<lambda>el. el\<lparr>classes := insert c (classes el)\<rparr>)"

definition classList_remove :: "string \<Rightarrow> string \<Rightarrow> unit js" where
  "classList_remove i c = on_element i (\<lambda>el. el\<lparr>classes := classes el - {c}\<rparr>)"

definition set_innerHTML :: "string \<Rightarrow> content \<Rightarrow> unit js" where
  "set_innerHTML i h = on_element i (\<lambda>el. el\<lparr>innerHTML := h\<rparr>)"

text \<open>The elements the shell template creates inside the container, with the classes
  the template gives them.\<close>

definition shell_elements :: "bool \<Rightarrow> (string \<times> element) list" where
  "shell_elements auto =
     [(''loading'', \<lparr>classes = {''loading''}, innerHTML = Spinner\<rparr>),
      (''deviceCard'', \<lparr>classes = {''cartoon-card'', ''card-primary'', ''hidden''},
                        innerHTML = Blank\<rparr>),
      (''deviceInfoList'', \<lparr>classes = {}, innerHTML = Blank\<rparr>),
      (''batteryCard'', \<lparr>classes = {''cartoon-card'', ''card-battery'', ''hidden''},
                         innerHTML = Blank\<rparr>),
      (''batteryInfo'', \<lparr>classes = {}, innerHTML = Blank\<rparr>),
      (''networkCard'', \<lparr>classes = {''cartoon-card'', ''card-network'', ''hidden''},
                         innerHTML = Blank\<rparr>),
      (''networkInfo'', \<lparr>classes = {}, innerHTML = Blank\<rparr>),
      (''appCard'', \<lparr>classes = {''cartoon-card'', ''card-app'', ''hidden''},
                     innerHTML = Blank\<rparr>),
      (''appInfoList'', \<lparr>classes = {}, innerHTML = Blank\<rparr>),
      (''buttonGroup'', \<lparr>classes = {''button-group'', ''hidden''}, innerHTML = Buttons auto\<rparr>),
      (''refreshBtn'', \<lparr>classes = {''refresh-btn''}, innerHTML = Blank\<rparr>),
      (''toast'', \<lparr>classes = {''toast''}, innerHTML = Blank\<rparr>)]"

definition renderUI :: "unit js" where
  "renderUI =
     (\<lambda>s. case document s ''app'' of
        None \<Rightarrow> (Inr (), s)
      | Some container \<Rightarrow>
          andThen (lift (get_prop (preferences (state s)) ''autoRefresh'')) (\<lambda>a.
            update (\<lambda>s. s\<lparr>document :=
              ((document s)(''app'' \<mapsto> container\<lparr>innerHTML := ShellMarkup\<rparr>))
                ++ map_of (shell_elements (truthy a))\<rparr>)) s)"

definition renderDeviceInfo :: "snapshot \<Rightarrow> unit js" where
  "renderDeviceInfo info = set_innerHTML ''deviceInfoList'' (DeviceView info)"

definition renderBatteryInfo :: "snapshot \<Rightarrow> unit js" where
  "renderBatteryInfo info = set_innerHTML ''batteryInfo'' (BatteryView (formatBatteryInfo info))"

definition renderNetworkInfo :: "snapshot \<Rightarrow> unit js" where
  "renderNetworkInfo info = set_innerHTML ''networkInfo'' (NetworkView (formatNetworkInfo info))"

definition renderAppInfo :: "snapshot \<Rightarrow> unit js" where
  "renderAppInfo info = set_innerHTML ''appInfoList'' (AppView (appVersion info) (uptime info))"

definition updateUI :: "unit js" where
  "updateUI =
     (\<lambda>s. case deviceInfo (state s) of
        None \<Rightarrow> (Inr (), s)
      | Some info \<Rightarrow>
         (seq (classList_add ''loading'' ''hidden'')
         (seq (classList_remove ''deviceCard'' ''hidden'')
         (seq (classList_remove ''buttonGroup'' ''hidden'')
         (seq (renderDeviceInfo info)
         (seq (andThen (reads (\<lambda>s. preferences (state s))) (\<lambda>p.
               andThen (lift (get_prop p ''showBattery'')) (\<lambda>b.
                 if truthy b then
                   seq (renderBatteryInfo info) (classList_remove ''batteryCard'' ''hidden'')
                 else ret ())))
         (seq (andThen (reads (\<lambda>s. preferences (state s))) (\<lambda>p.
               andThen (lift (get_prop p ''showNetwork'')) (\<lambda>b.
                 if truthy b then
                   seq (renderNetworkInfo info) (classList_remove ''networkCard'' ''hidden'')
                 else ret ())))
         (seq (renderAppInfo info)
              (classList_remove ''appCard'' ''hidden'')))))))) s)"

definition showError :: "string \<Rightarrow> unit js" where
  "showError message =
     (\<lambda>s. case document s ''loading'' of
        None \<Rightarrow> (Inr (), s)
      | Some loading \<Rightarrow>
          (Inr (), s\<lparr>document := (document s)
                      (''loading'' \<mapsto> loading\<lparr>innerHTML := ErrorView message\<rparr>)\<rparr>))"

definition loadDeviceInfo :: "window \<Rightarrow> int \<Rightarrow> unit js" where
  "loadDeviceInfo w now =
     tryCatch
       (andThen (getAllInfo w now) (\<lambda>info.
          seq (update (\<lambda>s. s\<lparr>state := (state s)\<lparr>deviceInfo := Some info\<rparr>\<rparr>)) updateUI))
       (\<lambda>error. showError str_load_failed)"

definition setupNetworkListener :: "window \<Rightarrow> unit js" where
  "setupNetworkListener w = addNetworkListener w"

definition startAutoRefresh :: "unit js" where
  "startAutoRefresh =
     seq (\<lambda>s. case refreshInterval (state s) of
            None \<Rightarrow> (Inr (), s)
          | Some t \<Rightarrow> if t \<noteq> 0 then clearInterval t s else (Inr (), s))
       (andThen (reads (\<lambda>s. preferences (state s))) (\<lambda>p.
        andThen (lift (get_prop p ''refreshInterval'')) (\<lambda>d.
        andThen (setInterval RefreshTick d) (\<lambda>t.
          update (\<lambda>s. s\<lparr>state := (state s)\<lparr>refreshInterval := Some t\<rparr>\<rparr>)))))"

definition stopAutoRefresh :: "unit js" where
  "stopAutoRefresh =
     (\<lambda>s. case refreshInterval (state s) of
        None \<Rightarrow> (Inr (), s)
      | Some t \<Rightarrow>
          if t \<noteq> 0 then
            seq (clearInterval t)
              (update (\<lambda>s. s\<lparr>state := (state s)\<lparr>refreshInterval := None\<rparr>\<rparr>)) s
          else (Inr (), s))"

text \<open>The body of the \<open>try\<close> block of \<open>init\<close>, then \<open>init\<close> with its \<open>catch\<close>. The
  clock is read once per run.\<close>

definition init_body :: "window \<Rightarrow> int \<Rightarrow> unit js" where
  "init_body w now =
     seq (update (\<lambda>s. if appStartTime (localStorage s) = None
                       then s\<lparr>localStorage := (localStorage s)\<lparr>appStartTime := Some now\<rparr>\<rparr>
                       else s))
    (seq loadPreferences
    (seq (DeviceInfo_init w)
    (seq renderUI
    (seq (loadDeviceInfo w now)
    (seq (setupNetworkListener w)
         (andThen (reads (\<lambda>s. preferences (state s))) (\<lambda>p.
          andThen (lift (get_prop p ''autoRefresh'')) (\<lambda>a.
            if truthy a then startAutoRefresh else ret ()))))))))"

definition init :: "window \<Rightarrow> int \<Rightarrow> unit js" where
  "init w now = tryCatch (init_body w now) (\<lambda>error. showError str_init_failed)"

definition destroy :: "unit js" where
  "destroy = seq stopAutoRefresh removeNetworkListener"

text \<open>The page as the script finds it: the state literal of the application object,
  nothing cached, no timer, no subscription.\<close>

definition initial_state :: app_state where
  "initial_state = \<lparr>deviceInfo = None, autoRefresh = False, refreshInterval = None,
                    preferences = Obj []\<rparr>"

definition fresh_page :: "storage \<Rightarrow> (string \<rightharpoonup> element) \<Rightarrow> sys" where
  "fresh_page st doc =
     \<lparr>state = initial_state, cachedInfo = None, networkListener = None, localStorage = st,
      document = doc, intervals = Map.empty, last_interval = 0, subscriptions = {},
      last_handle = 0\<rparr>"

section \<open>Notions used to state the properties\<close>

text \<open>The active timers that run the refresh callback, and the invariant of the timer
  table: every timer was issued by \<open>setInterval\<close>, and a refresh timer is active only
  if the state holds its handle.\<close>

definition refresh_timers :: "sys \<Rightarrow> nat set" where
  "refresh_timers s = {t. \<exists>tm. intervals s t = Some tm \<and> callback tm = RefreshTick}"

definition timers_inv :: "sys \<Rightarrow> bool" where
  "timers_inv s \<longleftrightarrow>
     (\<forall>t \<in> dom (intervals s). 0 < t \<and> t \<le> last_interval s)
     \<and> refresh_timers s \<subseteq> set_option (refreshInterval (state s))"

text \<open>The phases of the page, read off the document as the specification describes
  them: loading while the loading element shows, error when it shows the error view,
  ready when it is hidden and the device card shows.\<close>

datatype ui_phase = Uninitialized | Loading | Ready | Error

definition ui_phase :: "sys \<Rightarrow> ui_phase" where
  "ui_phase s =
     (case document s ''loading'' of
        None \<Rightarrow> Uninitialized
      | Some l \<Rightarrow>
          if ''hidden'' \<notin> classes l then
            (case innerHTML l of ErrorView m \<Rightarrow> Error | _ \<Rightarrow> Loading)
          else
            (case document s ''deviceCard'' of
               None \<Rightarrow> Uninitialized
             | Some c \<Rightarrow> if ''hidden'' \<notin> classes c then Ready else Uninitialized))"

text \<open>A bridge on which every capability provider call throws.\<close>

definition failing_bridge :: window where
  "failing_bridge = \<lparr>Capacitor_Plugins = Some
      \<lparr>Device = Some \<lparr>getInfo = Inl (ProviderError ''stub''),
                       getBatteryInfo = Inl (ProviderError ''stub'')\<rparr>,
       Network = Some \<lparr>getStatus = Inl (ProviderError ''stub''),
                        addListener = Inl (ProviderError ''stub'')\<rparr>,
       Haptics = Some \<lparr>impact = Inl (ProviderError ''stub'')\<rparr>,
       LocalNotifications = Some \<lparr>requestPermissions = Inl (ProviderError ''stub''),
                                   schedule = Inl (ProviderError ''stub'')\<rparr>,
       Clipboard = Some \<lparr>clipboard_write = Inl (ProviderError ''stub'')\<rparr>\<rparr>\<rparr>"

text \<open>A preferences object of the documented shape, under the property names the code
  uses.\<close>

definition Preferences :: "bool \<Rightarrow> int \<Rightarrow> bool \<Rightarrow> bool \<Rightarrow> bool \<Rightarrow> jsval" where
  "Preferences auto interval sb sn su =
     Obj [(''autoRefresh'', Bool auto), (''refreshInterval'', Num (of_int interval)),
          (''showBattery'', Bool sb), (''showNetwork'', Bool sn), (''showUptime'', Bool su)]"

section \<open>Properties\<close>

subsection \<open>Arithmetic helpers\<close>

lemma uptime_units:
  fixes e :: int
  assumes "0 \<le> e"
  shows "e div 1000 div 60 = e div 60000"
    and "e div 60000 div 60 = e div 3600000"
    and "e div 3600000 div 24 = e div 86400000"
  using assms by (simp_all add: div_mult2_eq[symmetric])

lemma js_rem_nonneg: "0 \<le> a \<Longrightarrow> 0 < b \<Longrightarrow> js_rem a b = a mod b"
  by (cases "a = 0") (simp_all add: js_rem_def)

lemma Math_round_gt: "k < Math_round x \<longleftrightarrow> of_int k + 1 / 2 \<le> x"
proof -
  have "k < \<lfloor>x + 1 / 2\<rfloor> \<longleftrightarrow> k + 1 \<le> \<lfloor>x + 1 / 2\<rfloor>"
    by linarith
  also have "\<dots> \<longleftrightarrow> of_int (k + 1) \<le> x + 1 / 2"
    by (rule le_floor_iff)
  finally have "k < \<lfloor>x + 1 / 2\<rfloor> \<longleftrightarrow> of_int k + 1 \<le> x + 1 / 2"
    by simp
  then show ?thesis unfolding Math_round_def by linarith
qed

lemma Math_round_eq:
  "Math_round x = k \<longleftrightarrow> of_int k - 1 / 2 \<le> x \<and> x < of_int k + 1 / 2"
  unfolding Math_round_def floor_eq_iff by auto

subsection \<open>Rounding to a double\<close>

text \<open>\<open>ilog2\<close> is the binary exponent, and \<open>to_double\<close> returns a multiple of the
  spacing \<open>2^e\<close> of the doubles at its argument, with a significand of at most 53 bits
  (\<open>2^53\<close> itself when the rounding carries into the next binade), at a distance of at
  most half the spacing.\<close>

lemma pow2_powi: "pow2 e = 2 powi e"
  by (simp add: pow2_def power_int_def field_simps)

lemma pow2_pos: "0 < pow2 e"
  by (simp add: pow2_powi)

lemma pow2_add: "pow2 (i + j) = pow2 i * pow2 j"
  by (simp add: pow2_powi power_int_add)

lemma pow2_mono: "i \<le> j \<Longrightarrow> pow2 i \<le> pow2 j"
  by (simp add: pow2_powi power_int_increasing)

lemma bit_length_bounds:
  "0 < n \<Longrightarrow> \<exists>k. bit_length n = int (Suc k) \<and> 2 ^ k \<le> n \<and> n < 2 ^ Suc k"
proof (induction n rule: bit_length.induct)
  case (1 n)
  show ?case
  proof (cases "n = 1")
    case True
    have "bit_length 1 = 1"
      by (subst bit_length.simps, subst bit_length.simps) simp
    then show ?thesis
      using True by (intro exI[of _ 0]) simp
  next
    case False
    then have m: "0 < n div 2" using 1(2) by linarith
    from 1(1) 1(2) m obtain k where k: "bit_length (n div 2) = int (Suc k)"
      "2 ^ k \<le> n div 2" "n div 2 < 2 ^ Suc k"
      by auto
    have b: "bit_length n = int (Suc (Suc k))"
      using 1(2) k(1) by (subst bit_length.simps) simp
    have lo: "2 ^ Suc k \<le> n" using k(2) by (simp; linarith?)
    have "n div 2 + 1 \<le> 2 ^ Suc k" using k(3) by linarith
    then have hi: "n < 2 ^ Suc (Suc k)" by (simp; linarith?)
    show ?thesis using b lo hi by blast
  qed
qed

lemma ilog2_bounds:
  assumes "0 < a"
  shows "pow2 (ilog2 a) \<le> a \<and> a < pow2 (ilog2 a + 1)"
proof -
  obtain p q where pq: "quotient_of a = (p, q)" by (cases "quotient_of a")
  have q0: "0 < q" using pq by (rule quotient_of_denom_pos)
  have a: "a = of_int p / of_int q" using pq by (rule quotient_of_div)
  have p0: "0 < p" using assms q0 unfolding a by (simp add: zero_less_divide_iff)
  from bit_length_bounds[OF p0] obtain i where i: "bit_length p = int (Suc i)"
      "2 ^ i \<le> p" "p < 2 ^ Suc i" by blast
  from bit_length_bounds[OF q0] obtain j where j: "bit_length q = int (Suc j)"
      "2 ^ j \<le> q" "q < 2 ^ Suc j" by blast
  define k where "k = int i - int j"
  have kk: "bit_length p - bit_length q = k" by (simp add: i j k_def)
  have il: "ilog2 a = (if pow2 k \<le> a then k else k - 1)"
    by (simp add: ilog2_def pq kk Let_def)
  have qr: "(0::rat) < of_int q" using q0 by simp
  have pr: "(0::rat) < of_int p" using p0 by simp
  have pi: "(2::rat) ^ i \<le> of_int p" "(of_int p :: rat) < 2 ^ Suc i"
    using i(2,3) by (metis of_int_le_iff of_int_numeral of_int_power, metis of_int_less_iff of_int_numeral of_int_power)
  have qj: "(2::rat) ^ j \<le> of_int q" "(of_int q :: rat) < 2 ^ Suc j"
    using j(2,3) by (metis of_int_le_iff of_int_numeral of_int_power, metis of_int_less_iff of_int_numeral of_int_power)
  have up: "a < pow2 (k + 1)"
  proof -
    have "pow2 (k + 1) = 2 ^ Suc i / 2 ^ j"
      by (simp add: pow2_powi k_def power_int_diff power_int_add)
    moreover have "of_int p / of_int q < (2::rat) ^ Suc i / 2 ^ j"
      using pi(2) qj(1) qr pr by (intro frac_less) auto
    ultimately show ?thesis by (simp add: a)
  qed
  have lo: "pow2 (k - 1) < a"
  proof -
    have "pow2 (k - 1) = 2 ^ i / 2 ^ Suc j"
      by (simp add: pow2_powi k_def power_int_diff power_int_add)
    moreover have "(2::rat) ^ i / 2 ^ Suc j < of_int p / of_int q"
      using pi(1) qj(2) qr pr by (intro frac_less2) auto
    ultimately show ?thesis by (simp add: a)
  qed
  show ?thesis
    using up lo by (auto simp: il)
qed

lemma round_half_even_near:
  "\<bar>of_int (round_half_even m) - m\<bar> \<le> 1 / 2"
proof -
  have "of_int \<lfloor>m\<rfloor> \<le> m" "m < of_int \<lfloor>m\<rfloor> + 1"
    by linarith+
  then show ?thesis
    by (auto simp: round_half_even_def Let_def)
qed

lemma to_double_nearest:
  assumes "x \<noteq> 0"
  defines "e \<equiv> max (ilog2 \<bar>x\<bar> - 52) (- 1074)"
  shows "\<exists>n. to_double x = sgn x * of_int n * pow2 e \<and> 0 \<le> n \<and> n \<le> 2 ^ 53
           \<and> \<bar>to_double x - x\<bar> \<le> pow2 e / 2"
proof -
  define m where "m = \<bar>x\<bar> / pow2 e"
  define n where "n = round_half_even m"
  have a0: "0 < \<bar>x\<bar>" using assms(1) by simp
  have m0: "0 < m" using a0 pow2_pos[of e] by (simp add: m_def)
  have td: "to_double x = sgn x * of_int n * pow2 e"
    using assms(1) by (simp add: to_double_def Let_def e_def n_def m_def)
  have near: "\<bar>of_int n - m\<bar> \<le> 1 / 2"
    unfolding n_def by (rule round_half_even_near)
  have x: "x = sgn x * m * pow2 e"
    using pow2_pos[of e] by (simp add: m_def mult_sgn_abs)
  have "to_double x - x = sgn x * (of_int n - m) * pow2 e"
    by (subst (2) x) (simp add: td algebra_simps)
  then have "\<bar>to_double x - x\<bar> = \<bar>of_int n - m\<bar> * pow2 e"
    using assms(1) pow2_pos[of e] by (simp add: abs_mult abs_sgn_eq)
  also have "\<dots> \<le> 1 / 2 * pow2 e"
    using near pow2_pos[of e] by (intro mult_right_mono) auto
  finally have err: "\<bar>to_double x - x\<bar> \<le> pow2 e / 2" by simp
  have "\<bar>x\<bar> < pow2 (ilog2 \<bar>x\<bar> + 1)"
    using ilog2_bounds[OF a0] by simp
  also have "\<dots> \<le> pow2 (e + 53)"
    by (rule pow2_mono) (simp add: e_def)
  also have "\<dots> = pow2 e * 2 ^ 53"
    by (simp add: pow2_add) (simp add: pow2_def)
  finally have "m < 2 ^ 53"
    using pow2_pos[of e] by (simp add: m_def field_simps)
  then have "of_int n < (2::rat) ^ 53 + 1 / 2" using near by linarith
  then have "of_int n < (of_int (2 ^ 53 + 1) :: rat)" by simp
  then have n_hi: "n \<le> 2 ^ 53" unfolding of_int_less_iff by simp
  have "- 1 / 2 < (of_int n :: rat)" using near m0 by linarith
  then have "(of_int (- 1) :: rat) < of_int n" by simp
  then have n_lo: "0 \<le> n" unfolding of_int_less_iff by simp
  show ?thesis using td n_lo n_hi err by blast
qed

subsection \<open>Number arithmetic on the values the battery examples use\<close>

text \<open>The doubles that the literals 0.1, 0.2 and 0.205 of a script denote.\<close>

lemma to_double_literals:
  "to_double (10 / 100) = 3602879701896397 / 36028797018963968"
  "to_double (20 / 100) = 3602879701896397 / 18014398509481984"
  "to_double (205 / 1000) = 7385903388887613 / 36028797018963968"
  by code_simp+

text \<open>The products \<open>level * 100\<close> at the doubles nearest to 0.55, 0.35, 0.10, 0.50, 0.20
  and 0.205, and at 1. The product at 0.55 is the double next above 55. The double
  nearest to 0.205 is below 0.205 and its exact hundredfold is below 20.5, but the
  product of the two doubles is 20.5.\<close>

lemma exact_product_0205: "to_double (205 / 1000) * 100 < 41 / 2"
  unfolding to_double_literals by simp

lemma percent_055: "double_mul (to_double (55 / 100)) 100 = 7740561859543041 / 140737488355328"
  by code_simp

lemma percent_035: "double_mul (to_double (35 / 100)) 100 = 35"
  by code_simp

lemma percent_010: "double_mul (to_double (10 / 100)) 100 = 10"
  by code_simp

lemma percent_050: "double_mul (to_double (50 / 100)) 100 = 50"
  by code_simp

lemma percent_020: "double_mul (to_double (20 / 100)) 100 = 20"
  by code_simp

lemma percent_0205: "double_mul (to_double (205 / 1000)) 100 = 41 / 2"
  by code_simp

lemma percent_1: "double_mul 1 100 = 100"
  by code_simp

lemma is_double_020:
  "to_double (20 / 100) \<noteq> 0" "is_double (to_double (20 / 100))" "is_double 20"
  by code_simp+

lemma Math_round_100: "Math_round (double_mul 1 100) = 100"
  unfolding percent_1 by (simp add: Math_round_eq)

subsection \<open>InfoProvider: fallbacks\<close>

text \<open>
  C1. When the plugin bridge is absent (\<open>getPlugins\<close> returns null), when the bridge
  lacks the provider, or when a provider call throws, \<open>getDeviceInfo\<close> returns the
  fallback device record (platform "ios", manufacturer "Apple", battery level 1, not
  charging) and \<open>getNetworkStatus\<close> returns the fallback status (not connected, type
  "none"); neither query throws on any input.
\<close>

theorem infoProvider_fallbacks:
  "(getPlugins w = None \<longrightarrow>
       getDeviceInfo w = Inr getFallbackDeviceInfo
     \<and> getNetworkStatus w = Inr getFallbackNetworkStatus)
   \<and> (getPlugins w = Some p \<and> Device p = None \<longrightarrow>
         getDeviceInfo w = Inr getFallbackDeviceInfo)
   \<and> (getPlugins w = Some p \<and> Network p = None \<longrightarrow>
         getNetworkStatus w = Inr getFallbackNetworkStatus)
   \<and> (getPlugins w = Some p \<and> Device p = Some dev
        \<and> (getInfo dev = Inl e \<or> getBatteryInfo dev = Inl e) \<longrightarrow>
         getDeviceInfo w = Inr getFallbackDeviceInfo)
   \<and> (getPlugins w = Some p \<and> Network p = Some net \<and> getStatus net = Inl e \<longrightarrow>
         getNetworkStatus w = Inr getFallbackNetworkStatus)
   \<and> (\<exists>d. getDeviceInfo w = Inr d) \<and> (\<exists>n. getNetworkStatus w = Inr n)
   \<and> platform getFallbackDeviceInfo = ''ios''
   \<and> manufacturer getFallbackDeviceInfo = ''Apple''
   \<and> battery getFallbackDeviceInfo = Some \<lparr>level = Some 1, charging = Some False\<rparr>
   \<and> connected getFallbackNetworkStatus = False
   \<and> connectionType getFallbackNetworkStatus = Some ''none''"
  by (auto simp: getDeviceInfo_def getNetworkStatus_def try_catch_def bind_js_def
        getFallbackDeviceInfo_def getFallbackNetworkStatus_def
      split: option.splits sum.splits)

theorem infoProvider_fallbacks_witness:
  "getPlugins \<lparr>Capacitor_Plugins = None\<rparr> = None
   \<and> getDeviceInfo \<lparr>Capacitor_Plugins = Some
        \<lparr>Device = None, Network = None, Haptics = None, LocalNotifications = None,
         Clipboard = None\<rparr>\<rparr> = Inr getFallbackDeviceInfo
   \<and> getNetworkStatus \<lparr>Capacitor_Plugins = Some
        \<lparr>Device = None, Network = None, Haptics = None, LocalNotifications = None,
         Clipboard = None\<rparr>\<rparr> = Inr getFallbackNetworkStatus
   \<and> getDeviceInfo \<lparr>Capacitor_Plugins = None\<rparr> = Inr getFallbackDeviceInfo
   \<and> getNetworkStatus \<lparr>Capacitor_Plugins = None\<rparr> = Inr getFallbackNetworkStatus
   \<and> getDeviceInfo \<lparr>Capacitor_Plugins = Some
        \<lparr>Device = Some \<lparr>getInfo = Inl (ProviderError ''stub''),
                         getBatteryInfo = Inl (ProviderError ''stub'')\<rparr>,
         Network = Some \<lparr>getStatus = Inl (ProviderError ''stub''),
                          addListener = Inl (ProviderError ''stub'')\<rparr>,
         Haptics = None, LocalNotifications = None, Clipboard = None\<rparr>\<rparr> = Inr getFallbackDeviceInfo
   \<and> getNetworkStatus \<lparr>Capacitor_Plugins = Some
        \<lparr>Device = Some \<lparr>getInfo = Inl (ProviderError ''stub''),
                         getBatteryInfo = Inl (ProviderError ''stub'')\<rparr>,
         Network = Some \<lparr>getStatus = Inl (ProviderError ''stub''),
                          addListener = Inl (ProviderError ''stub'')\<rparr>,
         Haptics = None, LocalNotifications = None, Clipboard = None\<rparr>\<rparr> = Inr getFallbackNetworkStatus"
  using infoProvider_fallbacks [of "\<lparr>Capacitor_Plugins = None\<rparr>"]
    infoProvider_fallbacks [of "\<lparr>Capacitor_Plugins = Some
        \<lparr>Device = None, Network = None, Haptics = None, LocalNotifications = None,
         Clipboard = None\<rparr>\<rparr>"
       "\<lparr>Device = None, Network = None, Haptics = None, LocalNotifications = None,
         Clipboard = None\<rparr>"]
    infoProvider_fallbacks [of "\<lparr>Capacitor_Plugins = Some
        \<lparr>Device = Some \<lparr>getInfo = Inl (ProviderError ''stub''),
                         getBatteryInfo = Inl (ProviderError ''stub'')\<rparr>,
         Network = Some \<lparr>getStatus = Inl (ProviderError ''stub''),
                          addListener = Inl (ProviderError ''stub'')\<rparr>,
         Haptics = None, LocalNotifications = None, Clipboard = None\<rparr>\<rparr>"
       "\<lparr>Device = Some \<lparr>getInfo = Inl (ProviderError ''stub''),
                         getBatteryInfo = Inl (ProviderError ''stub'')\<rparr>,
         Network = Some \<lparr>getStatus = Inl (ProviderError ''stub''),
                          addListener = Inl (ProviderError ''stub'')\<rparr>,
         Haptics = None, LocalNotifications = None, Clipboard = None\<rparr>"
       "\<lparr>getInfo = Inl (ProviderError ''stub''), getBatteryInfo = Inl (ProviderError ''stub'')\<rparr>"
       "ProviderError ''stub''"
       "\<lparr>getStatus = Inl (ProviderError ''stub''), addListener = Inl (ProviderError ''stub'')\<rparr>"]
  by (simp add: getPlugins_def)

subsection \<open>InfoProvider: uptime\<close>

text \<open>
  C2. For every start time and every current time not before it, \<open>getUptime\<close> picks
  its units by the elapsed time: days and hours from one day on, else hours and minutes
  from one hour on, else minutes and seconds from one minute on, else seconds alone;
  90 s gives "1 fenzhong 30 miao", 3700 s gives "1 xiaoshi 1 fenzhong" and 90000 s
  gives "1 tian 1 xiaoshi" (the Chinese unit words of the source).
\<close>

theorem getUptime_thresholds:
  assumes "start \<le> now"
  shows "getUptime (Some start) now =
     (let e = now - start in
      if 86400000 \<le> e then
        show_int (e div 86400000) @ str_tian @ '' '' @ show_int (e div 3600000 mod 24) @ str_xiaoshi
      else if 3600000 \<le> e then
        show_int (e div 3600000) @ str_xiaoshi @ '' '' @ show_int (e div 60000 mod 60) @ str_fenzhong
      else if 60000 \<le> e then
        show_int (e div 60000) @ str_fenzhong @ '' '' @ show_int (e div 1000 mod 60) @ str_miao
      else show_int (e div 1000) @ str_miao)
   \<and> getUptime (Some start) (start + 90000) = ''1'' @ str_fenzhong @ '' 30'' @ str_miao
   \<and> getUptime (Some start) (start + 3700000) = ''1'' @ str_xiaoshi @ '' 1'' @ str_fenzhong
   \<and> getUptime (Some start) (start + 90000000) = ''1'' @ str_tian @ '' 1'' @ str_xiaoshi"
proof -
  define e where "e = now - start"
  have e0: "0 \<le> e" using assms by (simp add: e_def)
  have d: "0 < e div 86400000 \<longleftrightarrow> 86400000 \<le> e"
    and h: "0 < e div 3600000 \<longleftrightarrow> 3600000 \<le> e"
    and m: "0 < e div 60000 \<longleftrightarrow> 60000 \<le> e"
    using e0 by (simp_all add: pos_imp_zdiv_pos_iff)
  have r: "js_rem (e div 3600000) 24 = e div 3600000 mod 24"
      "js_rem (e div 60000) 60 = e div 60000 mod 60"
      "js_rem (e div 1000) 60 = e div 1000 mod 60"
    using e0 by (simp_all add: js_rem_nonneg pos_imp_zdiv_nonneg_iff)
  have main: "getUptime (Some start) now =
     (if 86400000 \<le> e then
        show_int (e div 86400000) @ str_tian @ '' '' @ show_int (e div 3600000 mod 24) @ str_xiaoshi
      else if 3600000 \<le> e then
        show_int (e div 3600000) @ str_xiaoshi @ '' '' @ show_int (e div 60000 mod 60) @ str_fenzhong
      else if 60000 \<le> e then
        show_int (e div 60000) @ str_fenzhong @ '' '' @ show_int (e div 1000 mod 60) @ str_miao
      else show_int (e div 1000) @ str_miao)"
    unfolding getUptime_def Let_def option.case e_def[symmetric]
    by (simp only: uptime_units[OF e0] d h m r)
  have ex: "getUptime (Some start) (start + 90000) = ''1'' @ str_fenzhong @ '' 30'' @ str_miao"
    "getUptime (Some start) (start + 3700000) = ''1'' @ str_xiaoshi @ '' 1'' @ str_fenzhong"
    "getUptime (Some start) (start + 90000000) = ''1'' @ str_tian @ '' 1'' @ str_xiaoshi"
    by (simp_all add: getUptime_def Let_def show_int_def js_rem_def digit_char_def)
  show ?thesis using main ex by (simp add: Let_def e_def)
qed

theorem getUptime_thresholds_witness:
  "(1700000000000::int) \<le> 1700000090000 \<and>
   getUptime (Some 1700000000000) 1700000090000 = ''1'' @ str_fenzhong @ '' 30'' @ str_miao"
  using getUptime_thresholds [of 1700000000000 1700000090000]
  by (simp add: Let_def show_int_def digit_char_def)

subsection \<open>InfoProvider: battery formatting\<close>

lemma battery_class_by_percent:
  "bd_levelClass (formatBatteryInfo info) =
     (if bd_level (formatBatteryInfo info) > 50 then ''high''
      else if bd_level (formatBatteryInfo info) > 20 then ''medium'' else ''low'')"
  by (simp add: formatBatteryInfo_def Let_def)

lemma battery_percent:
  assumes "battery info = Some b" and "level b = Some l" and "l \<noteq> 0"
  shows "bd_level (formatBatteryInfo info) = Math_round (double_mul l 100)"
  using assms by (simp add: formatBatteryInfo_def Let_def or_num_def)

text \<open>
  C3, as the code has it. For every snapshot, \<open>formatBatteryInfo\<close> assigns
  \<open>levelClass\<close> by strict thresholds on the rounded percentage: "high" above 50,
  "medium" above 20 and up to 50, "low" otherwise. For a battery level \<open>l\<close> that is a
  non-zero finite double, with a finite product \<open>l * 100\<close>, the percentage is that
  product of doubles, rounded: the class is "high" from the product 50.5 on, "medium" from
  20.5 on, "low" below. With the levels the doubles that the literals denote, 0.55 gives
  "high", 0.35 "medium", 0.10 "low"; the boundary 0.50 gives "medium" and the boundary
  0.20 gives 20 and "low"; 0.205, whose product is 20.5, gives 21 and "medium".
\<close>

theorem formatBatteryInfo_levelClass:
  "bd_levelClass (formatBatteryInfo info) =
     (if bd_level (formatBatteryInfo info) > 50 then ''high''
      else if bd_level (formatBatteryInfo info) > 20 then ''medium'' else ''low'')
   \<and> (battery info = Some b \<and> level b = Some l \<and> l \<noteq> 0
        \<and> is_double l \<and> is_double (double_mul l 100) \<longrightarrow>
        bd_level (formatBatteryInfo info) = Math_round (double_mul l 100)
      \<and> bd_levelClass (formatBatteryInfo info) =
          (if 101 / 2 \<le> double_mul l 100 then ''high''
           else if 41 / 2 \<le> double_mul l 100 then ''medium'' else ''low'')
      \<and> (l = to_double (55 / 100) \<longrightarrow> bd_levelClass (formatBatteryInfo info) = ''high'')
      \<and> (l = to_double (35 / 100) \<longrightarrow> bd_levelClass (formatBatteryInfo info) = ''medium'')
      \<and> (l = to_double (10 / 100) \<longrightarrow> bd_levelClass (formatBatteryInfo info) = ''low'')
      \<and> (l = to_double (50 / 100) \<longrightarrow> bd_levelClass (formatBatteryInfo info) = ''medium'')
      \<and> (l = to_double (20 / 100) \<longrightarrow>
            bd_level (formatBatteryInfo info) = 20
          \<and> bd_levelClass (formatBatteryInfo info) = ''low'')
      \<and> (l = to_double (205 / 1000) \<longrightarrow>
            bd_level (formatBatteryInfo info) = 21
          \<and> bd_levelClass (formatBatteryInfo info) = ''medium''))"
proof (intro conjI impI)
  show cls: "bd_levelClass (formatBatteryInfo info) =
         (if bd_level (formatBatteryInfo info) > 50 then ''high''
          else if bd_level (formatBatteryInfo info) > 20 then ''medium'' else ''low'')"
    by (rule battery_class_by_percent)
  assume a: "battery info = Some b \<and> level b = Some l \<and> l \<noteq> 0
        \<and> is_double l \<and> is_double (double_mul l 100)"
  show lv: "bd_level (formatBatteryInfo info) = Math_round (double_mul l 100)"
    using a by (simp add: battery_percent)
  have hi: "50 < Math_round (double_mul l 100) \<longleftrightarrow> 101 / 2 \<le> double_mul l 100"
    by (simp add: Math_round_gt)
  have me: "20 < Math_round (double_mul l 100) \<longleftrightarrow> 41 / 2 \<le> double_mul l 100"
    by (simp add: Math_round_gt)
  show raw: "bd_levelClass (formatBatteryInfo info) =
         (if 101 / 2 \<le> double_mul l 100 then ''high''
          else if 41 / 2 \<le> double_mul l 100 then ''medium'' else ''low'')"
    using cls by (simp only: lv hi me)
  show "bd_levelClass (formatBatteryInfo info) = ''high''" if "l = to_double (55 / 100)"
    unfolding raw that percent_055 by simp
  show "bd_levelClass (formatBatteryInfo info) = ''medium''" if "l = to_double (35 / 100)"
    unfolding raw that percent_035 by simp
  show "bd_levelClass (formatBatteryInfo info) = ''low''" if "l = to_double (10 / 100)"
    unfolding raw that percent_010 by simp
  show "bd_levelClass (formatBatteryInfo info) = ''medium''" if "l = to_double (50 / 100)"
    unfolding raw that percent_050 by simp
  show "bd_level (formatBatteryInfo info) = 20" if "l = to_double (20 / 100)"
    unfolding lv that percent_020 by (simp add: Math_round_eq)
  show "bd_levelClass (formatBatteryInfo info) = ''low''" if "l = to_double (20 / 100)"
    unfolding raw that percent_020 by simp
  show "bd_level (formatBatteryInfo info) = 21" if "l = to_double (205 / 1000)"
    unfolding lv that percent_0205 by (simp add: Math_round_eq)
  show "bd_levelClass (formatBatteryInfo info) = ''medium''" if "l = to_double (205 / 1000)"
    unfolding raw that percent_0205 by simp
qed

theorem formatBatteryInfo_levelClass_witness:
  "bd_level (formatBatteryInfo (getFallbackDeviceInfo
      \<lparr>battery := Some \<lparr>level = Some (to_double (20 / 100)), charging = Some False\<rparr>\<rparr>)) = 20
   \<and> bd_levelClass (formatBatteryInfo (getFallbackDeviceInfo
      \<lparr>battery := Some \<lparr>level = Some (to_double (20 / 100)), charging = Some False\<rparr>\<rparr>)) = ''low''"
proof -
  let ?b = "\<lparr>level = Some (to_double (20 / 100)), charging = Some False\<rparr>"
  let ?i = "getFallbackDeviceInfo\<lparr>battery := Some ?b\<rparr>"
  have h: "battery ?i = Some ?b \<and> level ?b = Some (to_double (20 / 100))
      \<and> to_double (20 / 100) \<noteq> 0 \<and> is_double (to_double (20 / 100))
      \<and> is_double (double_mul (to_double (20 / 100)) 100)"
    unfolding percent_020 using is_double_020 by (simp del: divide_divide_eq_left)
  from formatBatteryInfo_levelClass [of ?i ?b "to_double (20 / 100)", THEN conjunct2, THEN mp, OF h]
  show ?thesis by blast
qed

text \<open>As the specification words it, the property fails at the boundary 0.20: the
  product of the double 0.2 and 100 is 20 exactly, 20 is not above 20, so the class there
  is "low", not "medium".\<close>

theorem formatBatteryInfo_boundary_20_counterexample:
  "bd_levelClass (formatBatteryInfo (getFallbackDeviceInfo
      \<lparr>battery := Some \<lparr>level = Some (to_double (20 / 100)), charging = Some False\<rparr>\<rparr>)) \<noteq> ''medium''"
proof -
  let ?b = "\<lparr>level = Some (to_double (20 / 100)), charging = Some False\<rparr>"
  let ?i = "getFallbackDeviceInfo\<lparr>battery := Some ?b\<rparr>"
  have "bd_level (formatBatteryInfo ?i) = Math_round (double_mul (to_double (20 / 100)) 100)"
    by (rule battery_percent [where b = ?b]) (simp_all only: is_double_020, simp_all)
  then have "bd_level (formatBatteryInfo ?i) = 20"
    unfolding percent_020 by (simp add: Math_round_eq)
  then show ?thesis
    unfolding battery_class_by_percent [of ?i] by simp
qed

text \<open>
  C9. A snapshot whose battery is missing, or whose battery level is missing or exactly
  0, is formatted as level 100 with class "high": the falsy level is replaced by 1.
  \<open>getDeviceInfo\<close> does the same to a reported \<open>batteryLevel\<close> of 0.
\<close>

theorem falsy_battery_level_is_full:
  "((battery info = None \<or> (\<exists>b. battery info = Some b \<and> (level b = None \<or> level b = Some 0)))
     \<longrightarrow> bd_level (formatBatteryInfo info) = 100 \<and> bd_levelClass (formatBatteryInfo info) = ''high'')
   \<and> (Capacitor_Plugins w = Some p \<and> Device p = Some dev \<and> getInfo dev = Inr (Some i)
     \<and> getBatteryInfo dev = Inr (Some bat) \<and> batteryLevel bat = Some 0
     \<longrightarrow> (\<exists>d. getDeviceInfo w = Inr d
            \<and> battery d = Some \<lparr>level = Some 1, charging = Some (or_bool (isCharging bat) False)\<rparr>))"
proof (intro conjI impI)
  assume a: "battery info = None \<or> (\<exists>b. battery info = Some b \<and> (level b = None \<or> level b = Some 0))"
  then have "or_num (case battery info of None \<Rightarrow> None | Some b \<Rightarrow> level b) 1 = 1"
    by (auto simp: or_num_def)
  then have lv: "bd_level (formatBatteryInfo info) = 100"
    by (simp add: formatBatteryInfo_def Let_def Math_round_100)
  then show "bd_level (formatBatteryInfo info) = 100" .
  show "bd_levelClass (formatBatteryInfo info) = ''high''"
    unfolding battery_class_by_percent by (simp add: lv)
next
  assume "Capacitor_Plugins w = Some p \<and> Device p = Some dev \<and> getInfo dev = Inr (Some i)
     \<and> getBatteryInfo dev = Inr (Some bat) \<and> batteryLevel bat = Some 0"
  then show "\<exists>d. getDeviceInfo w = Inr d
            \<and> battery d = Some \<lparr>level = Some 1, charging = Some (or_bool (isCharging bat) False)\<rparr>"
    by (simp add: getDeviceInfo_def getPlugins_def try_catch_def bind_js_def or_num_def)
qed

theorem falsy_battery_level_is_full_witness:
  "battery (getFallbackDeviceInfo\<lparr>battery := None\<rparr>) = None
   \<and> bd_level (formatBatteryInfo (getFallbackDeviceInfo\<lparr>battery := None\<rparr>)) = 100
   \<and> bd_levelClass (formatBatteryInfo (getFallbackDeviceInfo\<lparr>battery := None\<rparr>)) = ''high''
   \<and> (\<exists>d. getDeviceInfo \<lparr>Capacitor_Plugins = Some
          \<lparr>Device = Some
             \<lparr>getInfo = Inr (Some \<lparr>info_model = Some ''iPhone'', info_platform = Some ''ios'',
                  info_operatingSystem = Some ''ios'', info_osVersion = Some ''17.0'',
                  info_manufacturer = Some ''Apple'', info_isVirtual = Some False\<rparr>),
              getBatteryInfo = Inr (Some \<lparr>batteryLevel = Some 0, isCharging = Some True\<rparr>)\<rparr>,
           Network = None, Haptics = None, LocalNotifications = None, Clipboard = None\<rparr>\<rparr> = Inr d
        \<and> battery d = Some \<lparr>level = Some 1, charging = Some True\<rparr>)"
  using falsy_battery_level_is_full
    [of "getFallbackDeviceInfo\<lparr>battery := None\<rparr>"
        "\<lparr>Capacitor_Plugins = Some
          \<lparr>Device = Some
             \<lparr>getInfo = Inr (Some \<lparr>info_model = Some ''iPhone'', info_platform = Some ''ios'',
                  info_operatingSystem = Some ''ios'', info_osVersion = Some ''17.0'',
                  info_manufacturer = Some ''Apple'', info_isVirtual = Some False\<rparr>),
              getBatteryInfo = Inr (Some \<lparr>batteryLevel = Some 0, isCharging = Some True\<rparr>)\<rparr>,
           Network = None, Haptics = None, LocalNotifications = None, Clipboard = None\<rparr>\<rparr>"
        "\<lparr>Device = Some
             \<lparr>getInfo = Inr (Some \<lparr>info_model = Some ''iPhone'', info_platform = Some ''ios'',
                  info_operatingSystem = Some ''ios'', info_osVersion = Some ''17.0'',
                  info_manufacturer = Some ''Apple'', info_isVirtual = Some False\<rparr>),
              getBatteryInfo = Inr (Some \<lparr>batteryLevel = Some 0, isCharging = Some True\<rparr>)\<rparr>,
           Network = None, Haptics = None, LocalNotifications = None, Clipboard = None\<rparr>"
        "\<lparr>getInfo = Inr (Some \<lparr>info_model = Some ''iPhone'', info_platform = Some ''ios'',
                  info_operatingSystem = Some ''ios'', info_osVersion = Some ''17.0'',
                  info_manufacturer = Some ''Apple'', info_isVirtual = Some False\<rparr>),
              getBatteryInfo = Inr (Some \<lparr>batteryLevel = Some 0, isCharging = Some True\<rparr>)\<rparr>"
        "\<lparr>info_model = Some ''iPhone'', info_platform = Some ''ios'',
                  info_operatingSystem = Some ''ios'', info_osVersion = Some ''17.0'',
                  info_manufacturer = Some ''Apple'', info_isVirtual = Some False\<rparr>"
        "\<lparr>batteryLevel = Some 0, isCharging = Some True\<rparr>"]
  by (simp add: or_bool_def)

subsection \<open>JSON: the parser's fuel is enough\<close>

text \<open>
  The parser recurses on a fuel counter. Every successful parse consumes input, and a
  parse that succeeds with some fuel succeeds, with the same result, with any fuel that
  is at least the number of characters it consumes. So \<open>JSON_parse\<close>, which starts
  with more fuel than the text is long, rejects a text only if no amount of fuel would
  accept it.
\<close>

lemma skip_ws_length: "length (skip_ws s) \<le> length s"
  by (simp add: skip_ws_def length_dropWhile_le)

lemma skip_ws_Cons: "skip_ws s = c # cs \<Longrightarrow> length cs < length s"
  using skip_ws_length[of s] by simp

lemma map_option_rest:
  "map_option (\<lambda>(t, r). (h t, r)) m = Some (t', r') \<Longrightarrow> \<exists>t. m = Some (t, r')"
  by (cases m) auto

lemma parse_chars_shorter: "parse_chars s = Some (t, r) \<Longrightarrow> length r < length s"
proof (induction s arbitrary: t r rule: parse_chars.induct)
  case 1
  then show ?case by simp
next
  case (2 c)
  then show ?case by (simp split: if_splits)
next
  case (3 c e cs)
  show ?case
  proof (cases "c = CHR 0x22")
    case True
    then show ?thesis using "3.prems" by simp
  next
    case nq: False
    show ?thesis
    proof (cases "c = CHR 0x5C")
      case True
      show ?thesis
      proof (cases "e = CHR ''u''")
        case u: True
        from "3.prems" nq True u obtain h1 h2 h3 h4 rest where cs: "cs = h1 # h2 # h3 # h4 # rest"
          by (auto split: list.splits)
        from "3.prems" nq True u cs obtain a b c' d where
          hv: "hex_val h1 = Some a" "hex_val h2 = Some b" "hex_val h3 = Some c'" "hex_val h4 = Some d"
          by (auto split: option.splits)
        from "3.prems" nq True u cs hv obtain t0 where "parse_chars rest = Some (t0, r)"
          by (auto dest: map_option_rest)
        then have "length r < length rest"
          using "3.IH"(1) nq True u cs hv by simp
        then show ?thesis by (simp add: cs)
      next
        case nu: False
        from "3.prems" nq True nu obtain x where
          x: "map_of [(CHR 0x22, CHR 0x22), (CHR 0x5C, CHR 0x5C), (CHR ''/'', CHR ''/''),
                         (CHR ''b'', CHR 0x08), (CHR ''f'', CHR 0x0C), (CHR ''n'', CHR 0x0A),
                         (CHR ''r'', CHR 0x0D), (CHR ''t'', CHR 0x09)] e = Some x"
          by (auto split: option.splits simp del: map_of.simps)
        from "3.prems" nq True nu x obtain t0 where "parse_chars cs = Some (t0, r)"
          by (auto dest: map_option_rest simp del: map_of.simps)
        then have "length r < length cs"
          using "3.IH"(2) nq True nu x by (simp del: map_of.simps)
        then show ?thesis by simp
      qed
    next
      case False
      from "3.prems" nq False have ok: "\<not> (of_char c :: nat) < 32"
        by (auto split: if_splits)
      from "3.prems" nq False ok obtain t0 where "parse_chars (e # cs) = Some (t0, r)"
        by (auto dest: map_option_rest)
      then have "length r < length (e # cs)"
        using "3.IH"(3) nq False ok by simp
      then show ?thesis by simp
    qed
  qed
qed

lemma dropWhile_digits_le: "length (dropWhile is_digit s) \<le> length s"
  by (rule length_dropWhile_le)

lemma parse_int_part_shorter: "parse_int_part s = Some (n, r) \<Longrightarrow> length r < length s"
proof (cases s)
  case Nil
  then show "parse_int_part s = Some (n, r) \<Longrightarrow> length r < length s"
    by (simp add: parse_int_part_def)
next
  case (Cons c cs)
  assume a: "parse_int_part s = Some (n, r)"
  show "length r < length s"
  proof (cases "c = CHR ''0''")
    case True
    then show ?thesis using a Cons by (simp add: parse_int_part_def)
  next
    case False
    then have d: "is_digit c" and r: "r = dropWhile is_digit cs"
      using a Cons by (simp_all add: parse_int_part_def split: if_splits)
    show ?thesis
      using dropWhile_digits_le[of cs] by (simp add: r Cons less_Suc_eq_le)
  qed
qed

lemma parse_fraction_shorter: "parse_fraction s = Some (x, r) \<Longrightarrow> length r \<le> length s"
proof (cases s)
  case Nil
  then show "parse_fraction s = Some (x, r) \<Longrightarrow> length r \<le> length s"
    by (simp add: parse_fraction_def)
next
  case (Cons c cs)
  assume a: "parse_fraction s = Some (x, r)"
  show "length r \<le> length s"
  proof (cases "c = CHR ''.''")
    case True
    then have "r = dropWhile is_digit cs"
      using a Cons by (simp add: parse_fraction_def Let_def split: if_splits)
    then show ?thesis
      using dropWhile_digits_le[of cs] by (simp add: Cons)
  next
    case False
    then show ?thesis using a Cons by (simp add: parse_fraction_def)
  qed
qed

lemma parse_exponent_shorter: "parse_exponent s = Some (x, r) \<Longrightarrow> length r \<le> length s"
proof (cases s)
  case Nil
  then show "parse_exponent s = Some (x, r) \<Longrightarrow> length r \<le> length s"
    by (simp add: parse_exponent_def)
next
  case (Cons c cs)
  assume a: "parse_exponent s = Some (x, r)"
  show "length r \<le> length s"
  proof (cases "c = CHR ''e'' \<or> c = CHR ''E''")
    case True
    define ds where "ds = (case cs of [] \<Rightarrow> cs
                           | d # t \<Rightarrow> if d = CHR ''-'' then t
                                      else if d = CHR ''+'' then t else cs)"
    have ds: "length ds \<le> length cs"
      by (simp add: ds_def split: list.splits)
    define ng where "ng = (case cs of [] \<Rightarrow> False | d # t \<Rightarrow> d = CHR ''-'')"
    have sign: "(case cs of
                   [] \<Rightarrow> (False, cs)
                 | d # r \<Rightarrow> if d = CHR ''-'' then (True, r)
                            else if d = CHR ''+'' then (False, r) else (False, cs)) = (ng, ds)"
      by (simp add: ds_def ng_def split: list.splits)
    have "(if takeWhile is_digit ds = [] then None
           else Some ((ng, nat_of_digits (takeWhile is_digit ds)), dropWhile is_digit ds))
          = Some (x, r)"
      using a True unfolding parse_exponent_def Cons list.case sign by (simp add: Let_def)
    then have "r = dropWhile is_digit ds"
      by (simp split: if_splits)
    then show ?thesis
      using dropWhile_digits_le[of ds] ds by (simp add: Cons)
  next
    case False
    then show ?thesis using a Cons by (simp add: parse_exponent_def)
  qed
qed

lemma parse_number_shorter: "parse_number s = Some (x, r) \<Longrightarrow> length r < length s"
proof -
  assume a: "parse_number s = Some (x, r)"
  define s1 where "s1 = (case s of [] \<Rightarrow> s | c # cs \<Rightarrow> if c = CHR ''-'' then cs else s)"
  define neg where "neg = (case s of [] \<Rightarrow> False | c # cs \<Rightarrow> c = CHR ''-'')"
  have s1: "length s1 \<le> length s"
    by (simp add: s1_def split: list.splits)
  have sign: "(case s of [] \<Rightarrow> (False, s)
                       | c # cs \<Rightarrow> if c = CHR ''-'' then (True, cs) else (False, s)) = (neg, s1)"
    by (simp add: s1_def neg_def split: list.splits)
  have b: "(case parse_int_part s1 of
           None \<Rightarrow> None
         | Some (ip, s2) \<Rightarrow>
            (case parse_fraction s2 of
               None \<Rightarrow> None
             | Some (fr, s3) \<Rightarrow>
                (case parse_exponent s3 of
                   None \<Rightarrow> None
                 | Some ((eneg, ex), s4) \<Rightarrow>
                     Some ((if neg then - 1 else 1) * (of_nat ip + fr)
                             * (if eneg then 1 / 10 ^ ex else 10 ^ ex), s4)))) = Some (x, r)"
    using a unfolding parse_number_def sign by simp
  obtain ip s2 where i: "parse_int_part s1 = Some (ip, s2)"
    using b by (cases "parse_int_part s1") auto
  obtain fr s3 where f: "parse_fraction s2 = Some (fr, s3)"
    using b i by (cases "parse_fraction s2") auto
  obtain e where e: "parse_exponent s3 = Some (e, r)"
    using b i f by (cases "parse_exponent s3") auto
  show ?thesis
    using s1 parse_int_part_shorter[OF i] parse_fraction_shorter[OF f]
      parse_exponent_shorter[OF e]
    by simp
qed

lemma parse_shorter:
  "parse_value f s = Some (v, r) \<Longrightarrow> length r < length s"
  "parse_elements f' acc s' = Some (vs, r') \<Longrightarrow> length r' < length s'"
  "parse_members f'' acc2 s'' = Some (kvs, r'') \<Longrightarrow> length r'' < length s''"
proof (induction f s and f' acc s' and f'' acc2 s'' arbitrary: v r and vs r' and kvs r''
       rule: parse_value_parse_elements_parse_members.induct)
  case (1 s)
  then show ?case by simp
next
  case (2 f s)
  from "2.prems" obtain c cs where sk: "skip_ws s = c # cs"
    by (auto split: list.splits)
  have cs: "length cs < length s" using skip_ws_Cons[OF sk] .
  show ?case
  proof (cases "c = CHR ''{''")
    case True
    from "2.prems" sk True obtain d ds where sk2: "skip_ws cs = d # ds"
      by (auto split: list.splits)
    show ?thesis
    proof (cases "d = CHR ''}''")
      case T2: True
      then have "r = ds" using "2.prems" sk True sk2 by simp
      then show ?thesis using skip_ws_Cons[OF sk2] cs by simp
    next
      case False
      then obtain kvs where "parse_members f [] cs = Some (kvs, r)"
        using "2.prems" sk True sk2 by auto
      then have "length r < length cs"
        using "2.IH"(1)[OF sk True sk2 False] by blast
      then show ?thesis using cs by simp
    qed
  next
    case nb: False
    show ?thesis
    proof (cases "c = CHR ''[''")
      case True
      from "2.prems" sk nb True obtain d ds where sk2: "skip_ws cs = d # ds"
        by (auto split: list.splits)
      show ?thesis
      proof (cases "d = CHR '']''")
        case T2: True
        then have "r = ds" using "2.prems" sk nb True sk2 by simp
        then show ?thesis using skip_ws_Cons[OF sk2] cs by simp
      next
        case False
        then obtain vs where "parse_elements f [] cs = Some (vs, r)"
          using "2.prems" sk nb True sk2 by auto
        then have "length r < length cs"
          using "2.IH"(2)[OF sk nb True sk2 False] by blast
        then show ?thesis using cs by simp
      qed
    next
      case na: False
      have len: "length (c # cs) \<le> length s"
        using skip_ws_length[of s] sk by simp
      from "2.prems" sk nb na
      have "(\<exists>t. parse_chars cs = Some (t, r))
          \<or> (\<exists>x. parse_number (c # cs) = Some (x, r))
          \<or> r = drop 4 (c # cs) \<or> r = drop 5 (c # cs)"
        by (auto split: if_splits)
      then show ?thesis
        using parse_chars_shorter[of cs _ r] parse_number_shorter[of "c # cs" _ r] len
        by auto
    qed
  qed
next
  case (3 acc s)
  then show ?case by simp
next
  case (4 f acc s)
  from "4.prems" obtain v r1 where pv: "parse_value f s = Some (v, r1)"
    by (auto split: option.splits)
  have r1: "length r1 < length s" using "4.IH"(1)[OF pv] .
  from "4.prems" pv obtain c cs where sk: "skip_ws r1 = c # cs"
    by (auto split: list.splits)
  have cs: "length cs < length r1" using skip_ws_Cons[OF sk] .
  show ?case
  proof (cases "c = CHR '',''")
    case True
    then have "parse_elements f (acc @ [v]) cs = Some (vs, r')"
      using "4.prems" pv sk by simp
    then have "length r' < length cs"
      using "4.IH"(2)[OF pv refl sk True] by blast
    then show ?thesis using cs r1 by simp
  next
    case False
    then have "r' = cs" using "4.prems" pv sk by (auto split: if_splits)
    then show ?thesis using cs r1 by simp
  qed
next
  case (5 acc s)
  then show ?case by simp
next
  case (6 f acc s)
  from "6.prems" obtain c cs where sk: "skip_ws s = c # cs"
    by (auto split: list.splits)
  have q: "c = CHR 0x22" using "6.prems" sk by (auto split: if_splits)
  from "6.prems" sk q obtain k r1 where pc: "parse_chars cs = Some (k, r1)"
    by (auto split: option.splits)
  from "6.prems" sk q pc obtain d ds where sk1: "skip_ws r1 = d # ds"
    by (auto split: list.splits)
  have col: "d = CHR '':''" using "6.prems" sk q pc sk1 by (auto split: if_splits)
  from "6.prems" sk q pc sk1 col obtain v r2 where pv: "parse_value f ds = Some (v, r2)"
    by (auto split: option.splits)
  from "6.prems" sk q pc sk1 col pv obtain e es where sk2: "skip_ws r2 = e # es"
    by (auto split: list.splits)
  have chain: "length es < length r2" "length r2 < length ds" "length ds < length r1"
    "length r1 < length cs" "length cs < length s"
    using skip_ws_Cons[OF sk2] "6.IH"(1)[OF sk q pc refl sk1 col pv] skip_ws_Cons[OF sk1]
      parse_chars_shorter[OF pc] skip_ws_Cons[OF sk]
    by simp_all
  show ?case
  proof (cases "e = CHR '',''")
    case True
    then have "parse_members f (obj_put acc k v) es = Some (kvs, r'')"
      using "6.prems" sk q pc sk1 col pv sk2 by simp
    then have "length r'' < length es"
      using "6.IH"(2)[OF sk q pc refl sk1 col pv refl sk2 True] by blast
    then show ?thesis using chain by simp
  next
    case False
    then have "r'' = es" using "6.prems" sk q pc sk1 col pv sk2 by (auto split: if_splits)
    then show ?thesis using chain by simp
  qed
qed


lemma parse_fuel:
  "parse_value g s = Some (v, r) \<Longrightarrow> length s - length r \<le> f \<Longrightarrow>
     parse_value f s = Some (v, r)"
  "parse_elements g' acc s' = Some (vs, r') \<Longrightarrow> length s' - length r' \<le> f' \<Longrightarrow>
     parse_elements f' acc s' = Some (vs, r')"
  "parse_members g'' acc2 s'' = Some (kvs, r'') \<Longrightarrow> length s'' - length r'' \<le> f'' \<Longrightarrow>
     parse_members f'' acc2 s'' = Some (kvs, r'')"
proof (induction g s and g' acc s' and g'' acc2 s''
       arbitrary: f v r and f' vs r' and f'' kvs r''
       rule: parse_value_parse_elements_parse_members.induct)
  case (1 s)
  then show ?case by simp
next
  case (2 g s)
  have sh: "length r < length s" using parse_shorter(1)[OF "2.prems"(1)] .
  then obtain h where f: "f = Suc h" using "2.prems"(2) by (cases f) auto
  from "2.prems"(1) obtain c cs where sk: "skip_ws s = c # cs"
    by (auto split: list.splits)
  have cs: "length cs < length s" using skip_ws_Cons[OF sk] .
  show ?case
  proof (cases "c = CHR ''{''")
    case True
    from "2.prems"(1) sk True obtain d ds where sk2: "skip_ws cs = d # ds"
      by (auto split: list.splits)
    show ?thesis
    proof (cases "d = CHR ''}''")
      case T2: True
      then show ?thesis using "2.prems"(1) sk True sk2 f by simp
    next
      case False
      then obtain kvs where pm: "parse_members g [] cs = Some (kvs, r)" and v: "v = Obj kvs"
        using "2.prems"(1) sk True sk2 by auto
      have "length cs - length r \<le> h"
        using "2.prems"(2) f cs parse_shorter(3)[OF pm] by simp
      then have "parse_members h [] cs = Some (kvs, r)"
        using "2.IH"(1)[OF sk True sk2 False pm] by blast
      then show ?thesis using sk True sk2 False f v by simp
    qed
  next
    case nb: False
    show ?thesis
    proof (cases "c = CHR ''[''")
      case True
      from "2.prems"(1) sk nb True obtain d ds where sk2: "skip_ws cs = d # ds"
        by (auto split: list.splits)
      show ?thesis
      proof (cases "d = CHR '']''")
        case T2: True
        then show ?thesis using "2.prems"(1) sk nb True sk2 f by simp
      next
        case False
        then obtain vs where pe: "parse_elements g [] cs = Some (vs, r)" and v: "v = Arr vs"
          using "2.prems"(1) sk nb True sk2 by auto
        have "length cs - length r \<le> h"
          using "2.prems"(2) f cs parse_shorter(2)[OF pe] by simp
        then have "parse_elements h [] cs = Some (vs, r)"
          using "2.IH"(2)[OF sk nb True sk2 False pe] by blast
        then show ?thesis using sk nb True sk2 False f v by simp
      qed
    next
      case na: False
      have "parse_value (Suc h) s = parse_value (Suc g) s"
        using sk nb na by simp
      then show ?thesis using "2.prems"(1) f by simp
    qed
  qed
next
  case (3 acc s)
  then show ?case by simp
next
  case (4 g acc s)
  have sh: "length r' < length s" using parse_shorter(2)[OF "4.prems"(1)] .
  then obtain h where f: "f' = Suc h" using "4.prems"(2) by (cases f') auto
  from "4.prems"(1) obtain v r1 where pv: "parse_value g s = Some (v, r1)"
    by (auto split: option.splits)
  have r1: "length r1 < length s" using parse_shorter(1)[OF pv] .
  from "4.prems"(1) pv obtain c cs where sk: "skip_ws r1 = c # cs"
    by (auto split: list.splits)
  have cs: "length cs < length r1" using skip_ws_Cons[OF sk] .
  have rest: "length r' \<le> length cs"
  proof (cases "c = CHR '',''")
    case True
    then have "parse_elements g (acc @ [v]) cs = Some (vs, r')"
      using "4.prems"(1) pv sk by simp
    then show ?thesis using parse_shorter(2) by fastforce
  next
    case False
    then show ?thesis using "4.prems"(1) pv sk by (auto split: if_splits)
  qed
  have "length s - length r1 \<le> h"
    using "4.prems"(2) f r1 cs rest by simp
  then have pvh: "parse_value h s = Some (v, r1)"
    using "4.IH"(1)[OF pv] by blast
  show ?case
  proof (cases "c = CHR '',''")
    case True
    then have pe: "parse_elements g (acc @ [v]) cs = Some (vs, r')"
      using "4.prems"(1) pv sk by simp
    have "length cs - length r' \<le> h"
      using "4.prems"(2) f r1 cs by simp
    then have "parse_elements h (acc @ [v]) cs = Some (vs, r')"
      using "4.IH"(2)[OF pv refl sk True pe] by blast
    then show ?thesis using pvh sk True f by simp
  next
    case False
    then show ?thesis using "4.prems"(1) pv pvh sk f by (auto split: if_splits)
  qed
next
  case (5 acc s)
  then show ?case by simp
next
  case (6 g acc s)
  have sh: "length r'' < length s" using parse_shorter(3)[OF "6.prems"(1)] .
  then obtain h where f: "f'' = Suc h" using "6.prems"(2) by (cases f'') auto
  from "6.prems"(1) obtain c cs where sk: "skip_ws s = c # cs"
    by (auto split: list.splits)
  have q: "c = CHR 0x22" using "6.prems"(1) sk by (auto split: if_splits)
  from "6.prems"(1) sk q obtain k r1 where pc: "parse_chars cs = Some (k, r1)"
    by (auto split: option.splits)
  from "6.prems"(1) sk q pc obtain d ds where sk1: "skip_ws r1 = d # ds"
    by (auto split: list.splits)
  have col: "d = CHR '':''" using "6.prems"(1) sk q pc sk1 by (auto split: if_splits)
  from "6.prems"(1) sk q pc sk1 col obtain v r2 where pv: "parse_value g ds = Some (v, r2)"
    by (auto split: option.splits)
  from "6.prems"(1) sk q pc sk1 col pv obtain e es where sk2: "skip_ws r2 = e # es"
    by (auto split: list.splits)
  have chain: "length es < length r2" "length r2 < length ds" "length ds < length r1"
    "length r1 < length cs" "length cs < length s"
    using skip_ws_Cons[OF sk2] parse_shorter(1)[OF pv] skip_ws_Cons[OF sk1]
      parse_chars_shorter[OF pc] skip_ws_Cons[OF sk]
    by simp_all
  have rest: "length r'' \<le> length es"
  proof (cases "e = CHR '',''")
    case True
    then have "parse_members g (obj_put acc k v) es = Some (kvs, r'')"
      using "6.prems"(1) sk q pc sk1 col pv sk2 by simp
    then show ?thesis using parse_shorter(3) by fastforce
  next
    case False
    then show ?thesis using "6.prems"(1) sk q pc sk1 col pv sk2 by (auto split: if_splits)
  qed
  have "length ds - length r2 \<le> h"
    using "6.prems"(2) f chain rest by simp
  then have pvh: "parse_value h ds = Some (v, r2)"
    using "6.IH"(1)[OF sk q pc refl sk1 col pv] by blast
  show ?case
  proof (cases "e = CHR '',''")
    case True
    then have pm: "parse_members g (obj_put acc k v) es = Some (kvs, r'')"
      using "6.prems"(1) sk q pc sk1 col pv sk2 by simp
    have "length es - length r'' \<le> h"
      using "6.prems"(2) f chain by simp
    then have "parse_members h (obj_put acc k v) es = Some (kvs, r'')"
      using "6.IH"(2)[OF sk q pc refl sk1 col pv refl sk2 True pm] by blast
    then show ?thesis using sk q pc sk1 col pvh sk2 True f by simp
  next
    case False
    then show ?thesis
      using "6.prems"(1) sk q pc sk1 col pv pvh sk2 f by (auto split: if_splits)
  qed
qed

lemma JSON_parse_fuel:
  "JSON_parse text = Inr v \<longleftrightarrow> (\<exists>g r. parse_value g text = Some (v, r) \<and> skip_ws r = [])"
proof
  assume "JSON_parse text = Inr v"
  then show "\<exists>g r. parse_value g text = Some (v, r) \<and> skip_ws r = []"
    unfolding JSON_parse_def
    by (auto split: option.splits if_splits simp del: parse_value.simps) blast
next
  assume "\<exists>g r. parse_value g text = Some (v, r) \<and> skip_ws r = []"
  then obtain g r where g: "parse_value g text = Some (v, r)" and r: "skip_ws r = []"
    by blast
  have "parse_value (Suc (length text)) text = Some (v, r)"
    by (rule parse_fuel(1)[OF g]) simp
  then show "JSON_parse text = Inr v"
    using r by (simp add: JSON_parse_def)
qed

subsection \<open>Preferences\<close>

lemma JSON_parse_empty: "JSON_parse [] = Inl SyntaxError"
  by (simp add: JSON_parse_def skip_ws_def)

lemma loadPreferences_cases:
  "loadPreferences s =
     (Inr (), s\<lparr>state := (state s)\<lparr>preferences :=
        (case appPreferences (localStorage s) of
           None \<Rightarrow> getDefaultPreferences
         | Some saved \<Rightarrow> (case JSON_parse saved of
                           Inl e \<Rightarrow> getDefaultPreferences
                         | Inr v \<Rightarrow> v))\<rparr>\<rparr>)"
  by (auto simp: loadPreferences_def set_preferences_def update_def tryCatch_def andThen_def
        lift_def JSON_parse_empty split: option.splits sum.splits)

text \<open>
  C6. When the stored preferences are absent, or are a text that \<open>JSON.parse\<close> rejects,
  \<open>loadPreferences\<close> installs exactly the default preferences (autoRefresh false,
  refreshInterval 30000, showBattery, showNetwork and showUptime true); and on every page
  \<open>loadPreferences\<close> returns normally: no exception escapes it.
\<close>

theorem loadPreferences_defaults:
  "((appPreferences (localStorage s) = None
      \<or> (\<exists>saved e. appPreferences (localStorage s) = Some saved \<and> JSON_parse saved = Inl e))
     \<longrightarrow> preferences (state (snd (loadPreferences s))) =
           Obj [(''autoRefresh'', Bool False), (''refreshInterval'', Num 30000),
                (''showBattery'', Bool True), (''showNetwork'', Bool True),
                (''showUptime'', Bool True)])
   \<and> fst (loadPreferences s) = Inr ()"
  by (auto simp: loadPreferences_cases getDefaultPreferences_def)

theorem loadPreferences_defaults_witness:
  "JSON_parse ''{bad'' = Inl SyntaxError
   \<and> preferences (state (snd (loadPreferences
        (fresh_page \<lparr>appStartTime = None, appPreferences = Some ''{bad''\<rparr> Map.empty)))) =
       Obj [(''autoRefresh'', Bool False), (''refreshInterval'', Num 30000),
            (''showBattery'', Bool True), (''showNetwork'', Bool True),
            (''showUptime'', Bool True)]
   \<and> preferences (state (snd (loadPreferences
        (fresh_page \<lparr>appStartTime = None, appPreferences = None\<rparr> Map.empty)))) =
       Obj [(''autoRefresh'', Bool False), (''refreshInterval'', Num 30000),
            (''showBattery'', Bool True), (''showNetwork'', Bool True),
            (''showUptime'', Bool True)]"
proof -
  have bad: "JSON_parse ''{bad'' = Inl SyntaxError"
    by (simp add: JSON_parse_def skip_ws_def is_ws_def is_digit_def)
  show ?thesis
    using loadPreferences_defaults
            [of "fresh_page \<lparr>appStartTime = None, appPreferences = Some ''{bad''\<rparr> Map.empty"]
          loadPreferences_defaults
            [of "fresh_page \<lparr>appStartTime = None, appPreferences = None\<rparr> Map.empty"]
          bad
    by (simp add: fresh_page_def)
qed

text \<open>
  C10. \<open>loadPreferences\<close> installs the defaults only when the stored value is absent or
  \<open>JSON.parse\<close> throws; every value that parses is installed as it is, with no check
  of its shape and no merging of defaults: the stored text "null" installs null, and a
  stored object without \<open>refreshInterval\<close> is installed without it.
\<close>

theorem loadPreferences_verbatim:
  "preferences (state (snd (loadPreferences s))) =
     (case appPreferences (localStorage s) of
        None \<Rightarrow> getDefaultPreferences
      | Some saved \<Rightarrow> (case JSON_parse saved of
                        Inl e \<Rightarrow> getDefaultPreferences
                      | Inr v \<Rightarrow> v))
   \<and> (appPreferences (localStorage s) = Some saved \<and> JSON_parse saved = Inr v
        \<longrightarrow> preferences (state (snd (loadPreferences s))) = v)
   \<and> (appPreferences (localStorage s) = Some ''null''
        \<longrightarrow> preferences (state (snd (loadPreferences s))) = Null)
   \<and> (appPreferences (localStorage s) =
          Some [CHR ''{'', CHR 0x22, CHR ''a'', CHR ''u'', CHR ''t'', CHR ''o'', CHR ''R'',
                CHR ''e'', CHR ''f'', CHR ''r'', CHR ''e'', CHR ''s'', CHR ''h'', CHR 0x22,
                CHR '':'', CHR ''t'', CHR ''r'', CHR ''u'', CHR ''e'', CHR ''}'']
        \<longrightarrow> preferences (state (snd (loadPreferences s))) = Obj [(''autoRefresh'', Bool True)]
          \<and> get_prop (preferences (state (snd (loadPreferences s)))) ''refreshInterval''
              = Inr Undefined)"
proof -
  have n: "JSON_parse ''null'' = Inr Null"
    by (simp add: JSON_parse_def skip_ws_def is_ws_def is_digit_def)
  have ob: "JSON_parse [CHR ''{'', CHR 0x22, CHR ''a'', CHR ''u'', CHR ''t'', CHR ''o'', CHR ''R'',
                CHR ''e'', CHR ''f'', CHR ''r'', CHR ''e'', CHR ''s'', CHR ''h'', CHR 0x22,
                CHR '':'', CHR ''t'', CHR ''r'', CHR ''u'', CHR ''e'', CHR ''}'']
            = Inr (Obj [(''autoRefresh'', Bool True)])"
    by (simp add: JSON_parse_def skip_ws_def is_ws_def is_digit_def obj_put_def)
  show ?thesis
    by (auto simp: loadPreferences_cases n ob get_prop_def)
qed

theorem loadPreferences_verbatim_witness:
  "preferences (state (snd (loadPreferences
      (fresh_page \<lparr>appStartTime = None, appPreferences = Some ''null''\<rparr> Map.empty)))) = Null
   \<and> preferences (state (snd (loadPreferences
      (fresh_page \<lparr>appStartTime = None, appPreferences =
          Some [CHR ''{'', CHR 0x22, CHR ''a'', CHR ''u'', CHR ''t'', CHR ''o'', CHR ''R'',
                CHR ''e'', CHR ''f'', CHR ''r'', CHR ''e'', CHR ''s'', CHR ''h'', CHR 0x22,
                CHR '':'', CHR ''t'', CHR ''r'', CHR ''u'', CHR ''e'', CHR ''}'']\<rparr> Map.empty))))
       = Obj [(''autoRefresh'', Bool True)]"
  using loadPreferences_verbatim
     [of "fresh_page \<lparr>appStartTime = None, appPreferences = Some ''null''\<rparr> Map.empty",
      THEN conjunct2, THEN conjunct2, THEN conjunct1]
    loadPreferences_verbatim
     [of "fresh_page \<lparr>appStartTime = None, appPreferences =
          Some [CHR ''{'', CHR 0x22, CHR ''a'', CHR ''u'', CHR ''t'', CHR ''o'', CHR ''R'',
                CHR ''e'', CHR ''f'', CHR ''r'', CHR ''e'', CHR ''s'', CHR ''h'', CHR 0x22,
                CHR '':'', CHR ''t'', CHR ''r'', CHR ''u'', CHR ''e'', CHR ''}'']\<rparr> Map.empty",
      THEN conjunct2, THEN conjunct2, THEN conjunct2]
  by (simp add: fresh_page_def)

subsection \<open>The refresh timer\<close>

lemma startAutoRefresh_result:
  assumes "get_prop (preferences (state s)) ''refreshInterval'' = Inr d"
  shows "startAutoRefresh s =
     (Inr (), s\<lparr>intervals :=
                  ((case refreshInterval (state s) of
                      None \<Rightarrow> intervals s
                    | Some t \<Rightarrow> if t \<noteq> 0 then (intervals s)(t := None) else intervals s))
                  (Suc (last_interval s) \<mapsto> \<lparr>callback = RefreshTick, delay = d\<rparr>),
               last_interval := Suc (last_interval s),
               state := (state s)\<lparr>refreshInterval := Some (Suc (last_interval s))\<rparr>\<rparr>)"
  using assms
  by (auto simp: startAutoRefresh_def seq_def andThen_def reads_def lift_def update_def
        setInterval_def clearInterval_def Let_def split: option.splits)

lemma stopAutoRefresh_result:
  "stopAutoRefresh s =
     (Inr (), case refreshInterval (state s) of
                None \<Rightarrow> s
              | Some t \<Rightarrow> if t \<noteq> 0
                  then s\<lparr>intervals := (intervals s)(t := None),
                         state := (state s)\<lparr>refreshInterval := None\<rparr>\<rparr>
                  else s)"
  by (auto simp: stopAutoRefresh_def seq_def andThen_def update_def clearInterval_def
        split: option.splits)

lemma timers_inv_fresh: "timers_inv (fresh_page st doc)"
  by (simp add: timers_inv_def refresh_timers_def fresh_page_def)

lemma timers_inv_start:
  assumes "timers_inv s" and "get_prop (preferences (state s)) ''refreshInterval'' = Inr d"
  shows "timers_inv (snd (startAutoRefresh s))"
    and "refresh_timers (snd (startAutoRefresh s)) = {Suc (last_interval s)}"
  using assms(1) unfolding startAutoRefresh_result[OF assms(2)] timers_inv_def refresh_timers_def
  by (auto split: option.splits if_splits simp: dom_def subset_iff) force+

lemma timers_inv_stop:
  assumes "timers_inv s"
  shows "timers_inv (snd (stopAutoRefresh s))"
    and "refresh_timers (snd (stopAutoRefresh s)) = {}"
  using assms unfolding stopAutoRefresh_result timers_inv_def refresh_timers_def
  by (auto split: option.splits if_splits simp: dom_def subset_iff) force+


lemma startAutoRefresh_throws:
  assumes "get_prop (preferences (state s)) ''refreshInterval'' = Inl e"
  shows "startAutoRefresh s =
     (Inl e, s\<lparr>intervals :=
                  (case refreshInterval (state s) of
                      None \<Rightarrow> intervals s
                    | Some t \<Rightarrow> if t \<noteq> 0 then (intervals s)(t := None) else intervals s)\<rparr>)"
  using assms
  by (auto simp: startAutoRefresh_def seq_def andThen_def reads_def lift_def update_def
        setInterval_def clearInterval_def Let_def split: option.splits)

lemma timers_inv_start_throws:
  assumes "timers_inv s" and "get_prop (preferences (state s)) ''refreshInterval'' = Inl e"
  shows "timers_inv (snd (startAutoRefresh s))"
    and "refresh_timers (snd (startAutoRefresh s)) = {}"
  using assms(1) unfolding startAutoRefresh_throws[OF assms(2)] timers_inv_def refresh_timers_def
  by (auto split: option.splits if_splits simp: dom_def subset_iff) force+

text \<open>
  C7, as the code has it. On a page that satisfies the timer invariant, two calls of
  \<open>startAutoRefresh\<close> in succession leave exactly one refresh timer when the
  preferences are not null or undefined: both calls return, the second call cancels the
  timer the first one created before it creates its own, the state holds the handle of
  the second, and no other timer is touched. When the preferences are null or undefined,
  each call cancels the timer whose handle the state holds and then throws before it
  creates one: no refresh timer is active afterwards.
\<close>

theorem startAutoRefresh_twice:
  assumes "timers_inv s"
  shows "(get_prop (preferences (state s)) ''refreshInterval'' = Inr d \<longrightarrow>
     (let s1 = snd (startAutoRefresh s); s2 = snd (startAutoRefresh s1) in
     fst (startAutoRefresh s) = Inr () \<and> fst (startAutoRefresh s1) = Inr ()
     \<and> refreshInterval (state s1) = Some (Suc (last_interval s))
     \<and> refresh_timers s1 = {Suc (last_interval s)}
     \<and> refreshInterval (state s2) = Some (Suc (Suc (last_interval s)))
     \<and> refresh_timers s2 = {Suc (Suc (last_interval s))}
     \<and> card (refresh_timers s2) = 1
     \<and> Suc (last_interval s) \<notin> dom (intervals s2)
     \<and> (\<forall>t. refreshInterval (state s) \<noteq> Some t \<longrightarrow> t \<le> last_interval s
            \<longrightarrow> intervals s2 t = intervals s t)
     \<and> timers_inv s2))
   \<and> (get_prop (preferences (state s)) ''refreshInterval'' = Inl e \<longrightarrow>
     (let s1 = snd (startAutoRefresh s); s2 = snd (startAutoRefresh s1) in
     fst (startAutoRefresh s) = Inl e \<and> fst (startAutoRefresh s1) = Inl e
     \<and> refresh_timers s1 = {} \<and> refresh_timers s2 = {}
     \<and> last_interval s2 = last_interval s
     \<and> timers_inv s2))"
proof (intro conjI impI)
  assume g: "get_prop (preferences (state s)) ''refreshInterval'' = Inr d"
  define s1 where "s1 = snd (startAutoRefresh s)"
  define s2 where "s2 = snd (startAutoRefresh s1)"
  have p1: "get_prop (preferences (state s1)) ''refreshInterval'' = Inr d"
    using g by (simp add: s1_def startAutoRefresh_result[OF g])
  have r1: "fst (startAutoRefresh s) = Inr ()"
    by (simp add: startAutoRefresh_result[OF g])
  have r2: "fst (startAutoRefresh s1) = Inr ()"
    by (simp add: startAutoRefresh_result[OF p1])
  have i1: "timers_inv s1" and t1: "refresh_timers s1 = {Suc (last_interval s)}"
    using timers_inv_start[OF assms g] by (simp_all add: s1_def)
  have l1: "last_interval s1 = Suc (last_interval s)"
    and h1: "refreshInterval (state s1) = Some (Suc (last_interval s))"
    by (simp_all add: s1_def startAutoRefresh_result[OF g])
  have i2: "timers_inv s2" and t2: "refresh_timers s2 = {Suc (Suc (last_interval s))}"
    using timers_inv_start[OF i1 p1] by (simp_all add: s2_def l1)
  have h2: "refreshInterval (state s2) = Some (Suc (Suc (last_interval s)))"
    by (simp add: s2_def startAutoRefresh_result[OF p1] l1)
  have gone: "Suc (last_interval s) \<notin> dom (intervals s2)"
    by (simp add: s2_def startAutoRefresh_result[OF p1] h1 l1)
  have others: "\<forall>t. refreshInterval (state s) \<noteq> Some t \<longrightarrow> t \<le> last_interval s
                    \<longrightarrow> intervals s2 t = intervals s t"
  proof -
    have a: "intervals s2 = ((intervals s1)(Suc (last_interval s) := None))
                (Suc (Suc (last_interval s)) \<mapsto> \<lparr>callback = RefreshTick, delay = d\<rparr>)"
      by (simp add: s2_def startAutoRefresh_result[OF p1] h1 l1)
    have b: "intervals s1 =
               (case refreshInterval (state s) of
                  None \<Rightarrow> intervals s
                | Some t \<Rightarrow> if t \<noteq> 0 then (intervals s)(t := None) else intervals s)
               (Suc (last_interval s) \<mapsto> \<lparr>callback = RefreshTick, delay = d\<rparr>)"
      by (simp add: s1_def startAutoRefresh_result[OF g])
    show ?thesis
      unfolding a b by (auto split: option.splits)
  qed
  show "let s1 = snd (startAutoRefresh s); s2 = snd (startAutoRefresh s1) in
     fst (startAutoRefresh s) = Inr () \<and> fst (startAutoRefresh s1) = Inr ()
     \<and> refreshInterval (state s1) = Some (Suc (last_interval s))
     \<and> refresh_timers s1 = {Suc (last_interval s)}
     \<and> refreshInterval (state s2) = Some (Suc (Suc (last_interval s)))
     \<and> refresh_timers s2 = {Suc (Suc (last_interval s))}
     \<and> card (refresh_timers s2) = 1
     \<and> Suc (last_interval s) \<notin> dom (intervals s2)
     \<and> (\<forall>t. refreshInterval (state s) \<noteq> Some t \<longrightarrow> t \<le> last_interval s
            \<longrightarrow> intervals s2 t = intervals s t)
     \<and> timers_inv s2"
    unfolding Let_def s1_def[symmetric] s2_def[symmetric]
    using r1 r2 h1 t1 h2 t2 gone others i2 by simp
next
  assume g: "get_prop (preferences (state s)) ''refreshInterval'' = Inl e"
  define s1 where "s1 = snd (startAutoRefresh s)"
  define s2 where "s2 = snd (startAutoRefresh s1)"
  have p1: "get_prop (preferences (state s1)) ''refreshInterval'' = Inl e"
    using g by (simp add: s1_def startAutoRefresh_throws[OF g])
  have r1: "fst (startAutoRefresh s) = Inl e"
    by (simp add: startAutoRefresh_throws[OF g])
  have r2: "fst (startAutoRefresh s1) = Inl e"
    by (simp add: startAutoRefresh_throws[OF p1])
  have i1: "timers_inv s1" and t1: "refresh_timers s1 = {}"
    using timers_inv_start_throws[OF assms g] by (simp_all add: s1_def)
  have i2: "timers_inv s2" and t2: "refresh_timers s2 = {}"
    using timers_inv_start_throws[OF i1 p1] by (simp_all add: s2_def)
  have l1: "last_interval s1 = last_interval s"
    by (simp add: s1_def startAutoRefresh_throws[OF g])
  have l2: "last_interval s2 = last_interval s"
    by (simp add: s2_def startAutoRefresh_throws[OF p1] l1)
  show "let s1 = snd (startAutoRefresh s); s2 = snd (startAutoRefresh s1) in
     fst (startAutoRefresh s) = Inl e \<and> fst (startAutoRefresh s1) = Inl e
     \<and> refresh_timers s1 = {} \<and> refresh_timers s2 = {}
     \<and> last_interval s2 = last_interval s
     \<and> timers_inv s2"
    unfolding Let_def s1_def[symmetric] s2_def[symmetric]
    using r1 r2 t1 t2 l2 i2 by simp
qed

theorem startAutoRefresh_twice_witness:
  "refresh_timers (snd (startAutoRefresh (snd (startAutoRefresh
      ((fresh_page \<lparr>appStartTime = None, appPreferences = None\<rparr> Map.empty)
         \<lparr>intervals := [1 \<mapsto> \<lparr>callback = UptimeTick, delay = Num 1000\<rparr>],
          last_interval := 1\<rparr>))))) = {3}
   \<and> intervals (snd (startAutoRefresh (snd (startAutoRefresh
      ((fresh_page \<lparr>appStartTime = None, appPreferences = None\<rparr> Map.empty)
         \<lparr>intervals := [1 \<mapsto> \<lparr>callback = UptimeTick, delay = Num 1000\<rparr>],
          last_interval := 1\<rparr>))))) 2 = None
   \<and> fst (startAutoRefresh
      ((fresh_page \<lparr>appStartTime = None, appPreferences = None\<rparr> Map.empty)
         \<lparr>state := initial_state\<lparr>preferences := Null\<rparr>\<rparr>)) = Inl TypeError
   \<and> refresh_timers (snd (startAutoRefresh (snd (startAutoRefresh
      ((fresh_page \<lparr>appStartTime = None, appPreferences = None\<rparr> Map.empty)
         \<lparr>state := initial_state\<lparr>preferences := Null\<rparr>\<rparr>))))) = {}"
proof -
  let ?s = "(fresh_page \<lparr>appStartTime = None, appPreferences = None\<rparr> Map.empty)
         \<lparr>intervals := [1 \<mapsto> \<lparr>callback = UptimeTick, delay = Num 1000\<rparr>],
          last_interval := 1\<rparr>"
  let ?n = "(fresh_page \<lparr>appStartTime = None, appPreferences = None\<rparr> Map.empty)
         \<lparr>state := initial_state\<lparr>preferences := Null\<rparr>\<rparr>"
  have inv: "timers_inv ?s"
    by (auto simp: timers_inv_def refresh_timers_def fresh_page_def split: if_splits)
  have p: "get_prop (preferences (state ?s)) ''refreshInterval'' = Inr Undefined"
    by (simp add: fresh_page_def initial_state_def get_prop_def)
  have invn: "timers_inv ?n"
    by (auto simp: timers_inv_def refresh_timers_def fresh_page_def split: if_splits)
  have pn: "get_prop (preferences (state ?n)) ''refreshInterval'' = Inl TypeError"
    by (simp add: fresh_page_def initial_state_def get_prop_def)
  have a: "refresh_timers (snd (startAutoRefresh (snd (startAutoRefresh ?s)))) = {3}
      \<and> intervals (snd (startAutoRefresh (snd (startAutoRefresh ?s)))) 2 = None"
    using startAutoRefresh_twice [OF inv, THEN conjunct1, THEN mp, OF p]
    by (auto simp: Let_def fresh_page_def numeral_3_eq_3 numeral_2_eq_2 dom_def)
  have b: "fst (startAutoRefresh ?n) = Inl TypeError
      \<and> refresh_timers (snd (startAutoRefresh (snd (startAutoRefresh ?n)))) = {}"
    using startAutoRefresh_twice [OF invn, THEN conjunct2, THEN mp, OF pn]
    by (simp add: Let_def)
  show ?thesis using a b by simp
qed

text \<open>
  As the specification words it, the property fails on a page whose preferences are
  null, which is what \<open>loadPreferences\<close> installs from the stored text "null": reading
  \<open>this.state.preferences.refreshInterval\<close> throws before \<open>setInterval\<close> is called, so
  each of the two calls throws a TypeError and no refresh timer is active afterwards.
\<close>

theorem startAutoRefresh_null_preferences_counterexample:
  "(let s0 = snd (loadPreferences
               (fresh_page \<lparr>appStartTime = None, appPreferences = Some ''null''\<rparr> Map.empty));
        s1 = snd (startAutoRefresh s0);
        s2 = snd (startAutoRefresh s1)
    in preferences (state s0) = Null
     \<and> fst (startAutoRefresh s0) = Inl TypeError
     \<and> fst (startAutoRefresh s1) = Inl TypeError
     \<and> refresh_timers s2 = {}
     \<and> card (refresh_timers s2) \<noteq> 1)"
proof -
  have n: "JSON_parse ''null'' = Inr Null"
    by (simp add: JSON_parse_def skip_ws_def is_ws_def is_digit_def)
  let ?s0 = "snd (loadPreferences
               (fresh_page \<lparr>appStartTime = None, appPreferences = Some ''null''\<rparr> Map.empty))"
  have s0: "?s0 = (fresh_page \<lparr>appStartTime = None, appPreferences = Some ''null''\<rparr> Map.empty)
                    \<lparr>state := initial_state\<lparr>preferences := Null\<rparr>\<rparr>"
    by (simp add: loadPreferences_cases n fresh_page_def)
  show ?thesis
    unfolding Let_def s0
    by (simp add: startAutoRefresh_def seq_def andThen_def reads_def lift_def update_def
          get_prop_def fresh_page_def initial_state_def refresh_timers_def)
qed

subsection \<open>The network subscription\<close>

lemma addNetworkListener_result:
  assumes "getPlugins w = Some p" and "Network p = Some net" and "addListener net = Inr r"
  shows "addNetworkListener w s =
     (Inr (), s\<lparr>subscriptions := insert (Suc (last_handle s)) (subscriptions s),
               last_handle := Suc (last_handle s),
               networkListener := Some \<lparr>handle_id = Suc (last_handle s), handle_remove = r\<rparr>\<rparr>)"
  using assms
  by (simp add: addNetworkListener_def tryCatch_def andThen_def lift_def update_def Let_def)

lemma removeNetworkListener_result:
  assumes "networkListener s = Some h" and "handle_remove h = Inr ()"
  shows "removeNetworkListener s =
     (Inr (), s\<lparr>subscriptions := subscriptions s - {handle_id h}, networkListener := None\<rparr>)"
  using assms
  by (simp add: removeNetworkListener_def tryCatch_def seq_def andThen_def lift_def update_def)

text \<open>
  C4, as the code has it. \<open>addNetworkListener\<close> does not tear down a prior
  subscription: called with a working network provider while a subscription is held, it
  installs a new subscription and overwrites the held handle, and the prior subscription
  stays active. Only \<open>removeNetworkListener\<close> removes the held subscription; after it,
  a new \<open>addNetworkListener\<close> adds the only subscription of this module.
\<close>

theorem addNetworkListener_keeps_prior:
  assumes "getPlugins w = Some p" and "Network p = Some net" and "addListener net = Inr r"
    and "networkListener s = Some h" and "handle_id h \<in> subscriptions s"
    and "\<forall>x \<in> subscriptions s. x \<le> last_handle s"
  shows "fst (addNetworkListener w s) = Inr ()
     \<and> subscriptions (snd (addNetworkListener w s)) =
          insert (Suc (last_handle s)) (subscriptions s)
     \<and> Suc (last_handle s) \<notin> subscriptions s
     \<and> handle_id h \<in> subscriptions (snd (addNetworkListener w s))
     \<and> networkListener (snd (addNetworkListener w s)) =
          Some \<lparr>handle_id = Suc (last_handle s), handle_remove = r\<rparr>
     \<and> (handle_remove h = Inr () \<longrightarrow>
          subscriptions (snd (removeNetworkListener s)) = subscriptions s - {handle_id h}
        \<and> networkListener (snd (removeNetworkListener s)) = None
        \<and> subscriptions (snd (addNetworkListener w (snd (removeNetworkListener s)))) =
            insert (Suc (last_handle s)) (subscriptions s - {handle_id h}))"
proof -
  have fresh: "Suc (last_handle s) \<notin> subscriptions s"
    using assms(6) by auto
  show ?thesis
    using fresh assms(5)
    by (simp add: addNetworkListener_result[OF assms(1-3)]
          removeNetworkListener_result[OF assms(4)])
qed

text \<open>Two calls on a fresh page leave two active subscriptions, the first of them no
  longer reachable through the held handle.\<close>

theorem addNetworkListener_twice_counterexample:
  "subscriptions (snd (addNetworkListener
        \<lparr>Capacitor_Plugins = Some
          \<lparr>Device = None,
           Network = Some \<lparr>getStatus = Inl (ProviderError ''stub''), addListener = Inr (Inr ())\<rparr>,
           Haptics = None, LocalNotifications = None, Clipboard = None\<rparr>\<rparr>
      (snd (addNetworkListener
        \<lparr>Capacitor_Plugins = Some
          \<lparr>Device = None,
           Network = Some \<lparr>getStatus = Inl (ProviderError ''stub''), addListener = Inr (Inr ())\<rparr>,
           Haptics = None, LocalNotifications = None, Clipboard = None\<rparr>\<rparr>
        (fresh_page \<lparr>appStartTime = None, appPreferences = None\<rparr> Map.empty))))) = {1, 2}
   \<and> \<not> card (subscriptions (snd (addNetworkListener
        \<lparr>Capacitor_Plugins = Some
          \<lparr>Device = None,
           Network = Some \<lparr>getStatus = Inl (ProviderError ''stub''), addListener = Inr (Inr ())\<rparr>,
           Haptics = None, LocalNotifications = None, Clipboard = None\<rparr>\<rparr>
      (snd (addNetworkListener
        \<lparr>Capacitor_Plugins = Some
          \<lparr>Device = None,
           Network = Some \<lparr>getStatus = Inl (ProviderError ''stub''), addListener = Inr (Inr ())\<rparr>,
           Haptics = None, LocalNotifications = None, Clipboard = None\<rparr>\<rparr>
        (fresh_page \<lparr>appStartTime = None, appPreferences = None\<rparr> Map.empty)))))) \<le> 1"
  by (auto simp: addNetworkListener_def getPlugins_def tryCatch_def andThen_def lift_def update_def
        Let_def fresh_page_def)

theorem addNetworkListener_keeps_prior_witness:
  "subscriptions (snd (addNetworkListener
        \<lparr>Capacitor_Plugins = Some
          \<lparr>Device = None,
           Network = Some \<lparr>getStatus = Inl (ProviderError ''stub''), addListener = Inr (Inr ())\<rparr>,
           Haptics = None, LocalNotifications = None, Clipboard = None\<rparr>\<rparr>
        ((fresh_page \<lparr>appStartTime = None, appPreferences = None\<rparr> Map.empty)
           \<lparr>networkListener := Some \<lparr>handle_id = 1, handle_remove = Inr ()\<rparr>,
            subscriptions := {1}, last_handle := 1\<rparr>))) = {1, 2}"
proof -
  let ?net = "\<lparr>getStatus = Inl (ProviderError ''stub''), addListener = Inr (Inr ())\<rparr>"
  let ?p = "\<lparr>Device = None, Network = Some ?net, Haptics = None, LocalNotifications = None, Clipboard = None\<rparr>"
  let ?w = "\<lparr>Capacitor_Plugins = Some ?p\<rparr>"
  let ?s = "(fresh_page \<lparr>appStartTime = None, appPreferences = None\<rparr> Map.empty)
           \<lparr>networkListener := Some \<lparr>handle_id = 1, handle_remove = Inr ()\<rparr>,
            subscriptions := {1}, last_handle := 1\<rparr>"
  have a: "getPlugins ?w = Some ?p" by (simp add: getPlugins_def)
  have b: "Network ?p = Some ?net" by simp
  have c: "addListener ?net = Inr (Inr ())" by simp
  have d: "networkListener ?s = Some \<lparr>handle_id = 1, handle_remove = Inr ()\<rparr>" by simp
  have e: "handle_id \<lparr>handle_id = 1, handle_remove = Inr ()\<rparr> \<in> subscriptions ?s" by simp
  have f: "\<forall>x \<in> subscriptions ?s. x \<le> last_handle ?s" by simp
  show ?thesis
    using addNetworkListener_keeps_prior [OF a b c d e f]
    by (auto simp: fresh_page_def)
qed

subsection \<open>Initialisation\<close>

lemmas js_defs = ret_def lift_def reads_def update_def andThen_def seq_def tryCatch_def

lemma seq_apply:
  "seq m n s = (case m s of (Inl e, s') \<Rightarrow> (Inl e, s') | (Inr v, s') \<Rightarrow> n s')"
  by (simp add: seq_def andThen_def)

lemma getDeviceInfo_total: "\<exists>d. getDeviceInfo w = Inr d"
  by (auto simp: getDeviceInfo_def try_catch_def bind_js_def split: option.splits sum.splits)

lemma getNetworkStatus_total: "\<exists>n. getNetworkStatus w = Inr n"
  by (auto simp: getNetworkStatus_def try_catch_def bind_js_def split: option.splits sum.splits)

lemma DeviceInfo_init_result: "DeviceInfo_init w s = (Inr (), s)"
  by (auto simp: DeviceInfo_init_def js_defs split: option.splits sum.splits)

lemma getAllInfo_result:
  assumes "getDeviceInfo w = Inr d" and "getNetworkStatus w = Inr n"
  shows "getAllInfo w now s =
     (Inr \<lparr>model = model d, platform = platform d, operatingSystem = operatingSystem d,
           osVersion = osVersion d, manufacturer = manufacturer d, isVirtual = isVirtual d,
           battery = battery d, network = Some n, appVersion = getAppVersion,
           uptime = getUptime (appStartTime (localStorage s)) now\<rparr>,
      s\<lparr>cachedInfo := Some
          \<lparr>model = model d, platform = platform d, operatingSystem = operatingSystem d,
           osVersion = osVersion d, manufacturer = manufacturer d, isVirtual = isVirtual d,
           battery = battery d, network = Some n, appVersion = getAppVersion,
           uptime = getUptime (appStartTime (localStorage s)) now\<rparr>\<rparr>)"
  using assms by (simp add: getAllInfo_def js_defs Let_def)

lemma renderUI_result:
  assumes "document s ''app'' = Some c"
    and "get_prop (preferences (state s)) ''autoRefresh'' = Inr a"
  shows "renderUI s =
     (Inr (), s\<lparr>document := ((document s)(''app'' \<mapsto> c\<lparr>innerHTML := ShellMarkup\<rparr>))
                               ++ map_of (shell_elements (truthy a))\<rparr>)"
  using assms by (simp add: renderUI_def js_defs)

lemma on_element_result:
  "document s i = Some el \<Longrightarrow>
     on_element i f s = (Inr (), s\<lparr>document := (document s)(i \<mapsto> f el)\<rparr>)"
  by (simp add: on_element_def)

lemma updateUI_elements:
  assumes info: "deviceInfo (state s) = Some info"
    and x: "get_prop (preferences (state s)) ''showBattery'' = Inr x"
    and y: "get_prop (preferences (state s)) ''showNetwork'' = Inr y"
    and el: "document s ''loading'' = Some l" "document s ''deviceCard'' = Some dc"
      "document s ''buttonGroup'' = Some bg" "document s ''deviceInfoList'' = Some dl"
      "document s ''batteryInfo'' = Some bi" "document s ''batteryCard'' = Some bc"
      "document s ''networkInfo'' = Some ni" "document s ''networkCard'' = Some nc"
      "document s ''appInfoList'' = Some al" "document s ''appCard'' = Some ac"
  shows "\<exists>D. updateUI s = (Inr (), s\<lparr>document := D\<rparr>)
           \<and> D ''loading'' = Some (l\<lparr>classes := insert ''hidden'' (classes l)\<rparr>)
           \<and> D ''deviceCard'' = Some (dc\<lparr>classes := classes dc - {''hidden''}\<rparr>)"
proof -
  define s1 where "s1 = s\<lparr>document := (document s)
      (''loading'' \<mapsto> l\<lparr>classes := insert ''hidden'' (classes l)\<rparr>)\<rparr>"
  define s2 where "s2 = s1\<lparr>document := (document s1)
      (''deviceCard'' \<mapsto> dc\<lparr>classes := classes dc - {''hidden''}\<rparr>)\<rparr>"
  define s3 where "s3 = s2\<lparr>document := (document s2)
      (''buttonGroup'' \<mapsto> bg\<lparr>classes := classes bg - {''hidden''}\<rparr>)\<rparr>"
  define s4 where "s4 = s3\<lparr>document := (document s3)
      (''deviceInfoList'' \<mapsto> dl\<lparr>innerHTML := DeviceView info\<rparr>)\<rparr>"
  define s5 where "s5 = (if truthy x then
      s4\<lparr>document := (document s4)
            (''batteryInfo'' \<mapsto> bi\<lparr>innerHTML := BatteryView (formatBatteryInfo info)\<rparr>,
             ''batteryCard'' \<mapsto> bc\<lparr>classes := classes bc - {''hidden''}\<rparr>)\<rparr> else s4)"
  define s6 where "s6 = (if truthy y then
      s5\<lparr>document := (document s5)
            (''networkInfo'' \<mapsto> ni\<lparr>innerHTML := NetworkView (formatNetworkInfo info)\<rparr>,
             ''networkCard'' \<mapsto> nc\<lparr>classes := classes nc - {''hidden''}\<rparr>)\<rparr> else s5)"
  define s7 where "s7 = s6\<lparr>document := (document s6)
      (''appInfoList'' \<mapsto> al\<lparr>innerHTML := AppView (appVersion info) (uptime info)\<rparr>,
       ''appCard'' \<mapsto> ac\<lparr>classes := classes ac - {''hidden''}\<rparr>)\<rparr>"
  have st: "state s4 = state s" "state s5 = state s"
    by (simp_all add: s1_def s2_def s3_def s4_def s5_def)
  have e1: "classList_add ''loading'' ''hidden'' s = (Inr (), s1)"
    by (simp add: classList_add_def on_element_result[OF el(1)] s1_def)
  have "document s1 ''deviceCard'' = Some dc" by (simp add: s1_def el)
  then have e2: "classList_remove ''deviceCard'' ''hidden'' s1 = (Inr (), s2)"
    by (simp add: classList_remove_def on_element_result s2_def)
  have "document s2 ''buttonGroup'' = Some bg" by (simp add: s1_def s2_def el)
  then have e3: "classList_remove ''buttonGroup'' ''hidden'' s2 = (Inr (), s3)"
    by (simp add: classList_remove_def on_element_result s3_def)
  have "document s3 ''deviceInfoList'' = Some dl" by (simp add: s1_def s2_def s3_def el)
  then have e4: "renderDeviceInfo info s3 = (Inr (), s4)"
    by (simp add: renderDeviceInfo_def set_innerHTML_def on_element_result s4_def)
  have d4: "document s4 ''batteryInfo'' = Some bi" "document s4 ''batteryCard'' = Some bc"
    "document s4 ''networkInfo'' = Some ni" "document s4 ''networkCard'' = Some nc"
    "document s4 ''appInfoList'' = Some al" "document s4 ''appCard'' = Some ac"
    by (simp_all add: s1_def s2_def s3_def s4_def el)
  have e5: "(andThen (reads (\<lambda>s. preferences (state s))) (\<lambda>p.
               andThen (lift (get_prop p ''showBattery'')) (\<lambda>b.
                 if truthy b then
                   seq (renderBatteryInfo info) (classList_remove ''batteryCard'' ''hidden'')
                 else ret ()))) s4 = (Inr (), s5)"
    using d4 x
    by (simp add: js_defs st renderBatteryInfo_def set_innerHTML_def classList_remove_def
          on_element_def s5_def)
  have d5: "document s5 ''networkInfo'' = Some ni" "document s5 ''networkCard'' = Some nc"
    "document s5 ''appInfoList'' = Some al" "document s5 ''appCard'' = Some ac"
    using d4 by (simp_all add: s5_def)
  have e6: "(andThen (reads (\<lambda>s. preferences (state s))) (\<lambda>p.
               andThen (lift (get_prop p ''showNetwork'')) (\<lambda>b.
                 if truthy b then
                   seq (renderNetworkInfo info) (classList_remove ''networkCard'' ''hidden'')
                 else ret ()))) s5 = (Inr (), s6)"
    using d5 y
    by (simp add: js_defs st renderNetworkInfo_def set_innerHTML_def classList_remove_def
          on_element_def s6_def)
  have d6: "document s6 ''appInfoList'' = Some al" "document s6 ''appCard'' = Some ac"
    using d5 by (simp_all add: s6_def)
  have e7: "(case renderAppInfo info s6 of
               (Inl e, s') \<Rightarrow> (Inl e, s')
             | (Inr v, s') \<Rightarrow> classList_remove ''appCard'' ''hidden'' s') = (Inr (), s7)"
    using d6
    by (simp add: renderAppInfo_def set_innerHTML_def classList_remove_def
          on_element_def s7_def)
  have run: "updateUI s = (Inr (), s7)"
    unfolding updateUI_def info option.case
    by (simp only: seq_apply e1 e2 e3 e4 e5 e6 e7 prod.case sum.case)
  have shape: "s7 = s\<lparr>document := document s7\<rparr>"
    by (simp add: s1_def s2_def s3_def s4_def s5_def s6_def s7_def)
  have lo: "document s7 ''loading'' = Some (l\<lparr>classes := insert ''hidden'' (classes l)\<rparr>)"
    by (simp add: s1_def s2_def s3_def s4_def s5_def s6_def s7_def)
  have dcard: "document s7 ''deviceCard'' = Some (dc\<lparr>classes := classes dc - {''hidden''}\<rparr>)"
    by (simp add: s1_def s2_def s3_def s4_def s5_def s6_def s7_def)
  show ?thesis
    using run shape lo dcard by metis
qed

lemma get_prop_ok: "v \<noteq> Null \<Longrightarrow> v \<noteq> Undefined \<Longrightarrow> \<exists>x. get_prop v k = Inr x"
  by (cases v) (simp_all add: get_prop_def)

lemma addNetworkListener_frame:
  "\<exists>s'. addNetworkListener w s = (Inr (), s') \<and> document s' = document s \<and> state s' = state s"
  by (auto simp: addNetworkListener_def js_defs Let_def split: option.splits sum.splits)

lemma init_ready:
  assumes app: "document s ''app'' = Some c"
    and nn: "preferences (state (snd (loadPreferences s))) \<noteq> Null"
            "preferences (state (snd (loadPreferences s))) \<noteq> Undefined"
    and d: "getDeviceInfo w = Inr d" and n: "getNetworkStatus w = Inr n"
  shows "fst (init_body w now s) = Inr ()"
    and "ui_phase (snd (init_body w now s)) = Ready"
    and "deviceInfo (state (snd (init_body w now s))) = Some
          \<lparr>model = model d, platform = platform d, operatingSystem = operatingSystem d,
           osVersion = osVersion d, manufacturer = manufacturer d, isVirtual = isVirtual d,
           battery = battery d, network = Some n, appVersion = getAppVersion,
           uptime = getUptime (Some (case appStartTime (localStorage s) of
                                       None \<Rightarrow> now | Some t \<Rightarrow> t)) now\<rparr>"
proof -
  define P where "P = preferences (state (snd (loadPreferences s)))"
  define info where "info =
          \<lparr>model = model d, platform = platform d, operatingSystem = operatingSystem d,
           osVersion = osVersion d, manufacturer = manufacturer d, isVirtual = isVirtual d,
           battery = battery d, network = Some n, appVersion = getAppVersion,
           uptime = getUptime (Some (case appStartTime (localStorage s) of
                                       None \<Rightarrow> now | Some t \<Rightarrow> t)) now\<rparr>"
  obtain a where a: "get_prop P ''autoRefresh'' = Inr a"
    using get_prop_ok nn unfolding P_def by blast
  obtain x where x: "get_prop P ''showBattery'' = Inr x"
    using get_prop_ok nn unfolding P_def by blast
  obtain y where y: "get_prop P ''showNetwork'' = Inr y"
    using get_prop_ok nn unfolding P_def by blast
  obtain dl where dl: "get_prop P ''refreshInterval'' = Inr dl"
    using get_prop_ok nn unfolding P_def by blast
  define s1 where "s1 = (if appStartTime (localStorage s) = None
                       then s\<lparr>localStorage := (localStorage s)\<lparr>appStartTime := Some now\<rparr>\<rparr>
                       else s)"
  define s2 where "s2 = s1\<lparr>state := (state s1)\<lparr>preferences := P\<rparr>\<rparr>"
  define D0 where "D0 = ((document s)(''app'' \<mapsto> c\<lparr>innerHTML := ShellMarkup\<rparr>))
                               ++ map_of (shell_elements (truthy a))"
  define s3 where "s3 = s2\<lparr>document := D0\<rparr>"
  define s4 where "s4 = s3\<lparr>cachedInfo := Some info,
                           state := (state s3)\<lparr>deviceInfo := Some info\<rparr>\<rparr>"
  have l1: "update (\<lambda>s. if appStartTime (localStorage s) = None
                       then s\<lparr>localStorage := (localStorage s)\<lparr>appStartTime := Some now\<rparr>\<rparr>
                       else s) s = (Inr (), s1)"
    by (simp add: update_def s1_def)
  have P1: "preferences (state (snd (loadPreferences s1))) = P"
    by (simp add: P_def s1_def loadPreferences_cases)
  have l2: "loadPreferences s1 = (Inr (), s2)"
    using P1 by (simp add: loadPreferences_cases s2_def)
  have doc2: "document s2 ''app'' = Some c" "document s2 = document s"
    using app by (simp_all add: s2_def s1_def)
  have pr2: "preferences (state s2) = P" by (simp add: s2_def)
  have l3: "renderUI s2 = (Inr (), s3)"
    using renderUI_result[OF doc2(1), of a] a by (simp add: pr2 s3_def D0_def doc2(2))
  have up: "getUptime (appStartTime (localStorage s3)) now = uptime info"
    by (simp add: s3_def s2_def s1_def info_def split: option.splits)
  have l4a: "getAllInfo w now s3 = (Inr info, s3\<lparr>cachedInfo := Some info\<rparr>)"
    using getAllInfo_result[OF d n, of now s3] up by (simp add: info_def)
  have pr4: "preferences (state s4) = P" and di4: "deviceInfo (state s4) = Some info"
    and doc4: "document s4 = D0"
    by (simp_all add: s4_def s3_def s2_def)
  define l0 where "l0 = \<lparr>classes = {''loading''}, innerHTML = Spinner\<rparr>"
  define dc0 where "dc0 = \<lparr>classes = {''cartoon-card'', ''card-primary'', ''hidden''},
                        innerHTML = Blank\<rparr>"
  have els: "document s4 ''loading'' = Some l0"
    "document s4 ''deviceCard'' = Some dc0"
    "document s4 ''buttonGroup'' =
       Some \<lparr>classes = {''button-group'', ''hidden''}, innerHTML = Buttons (truthy a)\<rparr>"
    "document s4 ''deviceInfoList'' = Some \<lparr>classes = {}, innerHTML = Blank\<rparr>"
    "document s4 ''batteryInfo'' = Some \<lparr>classes = {}, innerHTML = Blank\<rparr>"
    "document s4 ''batteryCard'' =
       Some \<lparr>classes = {''cartoon-card'', ''card-battery'', ''hidden''}, innerHTML = Blank\<rparr>"
    "document s4 ''networkInfo'' = Some \<lparr>classes = {}, innerHTML = Blank\<rparr>"
    "document s4 ''networkCard'' =
       Some \<lparr>classes = {''cartoon-card'', ''card-network'', ''hidden''}, innerHTML = Blank\<rparr>"
    "document s4 ''appInfoList'' = Some \<lparr>classes = {}, innerHTML = Blank\<rparr>"
    "document s4 ''appCard'' =
       Some \<lparr>classes = {''cartoon-card'', ''card-app'', ''hidden''}, innerHTML = Blank\<rparr>"
    unfolding doc4 D0_def shell_elements_def l0_def dc0_def by simp_all
  obtain D where D: "updateUI s4 = (Inr (), s4\<lparr>document := D\<rparr>)"
    and Dl: "D ''loading'' = Some (l0\<lparr>classes := insert ''hidden'' (classes l0)\<rparr>)"
    and Dc: "D ''deviceCard'' = Some (dc0\<lparr>classes := classes dc0 - {''hidden''}\<rparr>)"
    using updateUI_elements[OF di4 x[folded pr4] y[folded pr4] els]
    by blast
  define s5 where "s5 = s4\<lparr>document := D\<rparr>"
  have l5: "loadDeviceInfo w now s3 = (Inr (), s5)"
    using D by (simp add: loadDeviceInfo_def js_defs l4a s4_def s5_def)
  obtain s6 where l6: "setupNetworkListener w s5 = (Inr (), s6)"
    and doc6': "document s6 = document s5" and st6: "state s6 = state s5"
    using addNetworkListener_frame[of w s5] unfolding setupNetworkListener_def by blast
  have doc6: "document s6 = D"
    by (simp add: doc6' s5_def)
  have pr6: "preferences (state s6) = P" and di6: "deviceInfo (state s6) = Some info"
    using pr4 di4 by (simp_all add: st6 s5_def)
  define s7 where "s7 = (if truthy a then snd (startAutoRefresh s6) else s6)"
  have sa: "get_prop (preferences (state s6)) ''refreshInterval'' = Inr dl"
    by (simp add: pr6 dl)
  have l7: "(andThen (reads (\<lambda>s. preferences (state s))) (\<lambda>p.
          andThen (lift (get_prop p ''autoRefresh'')) (\<lambda>a.
            if truthy a then startAutoRefresh else ret ()))) s6 = (Inr (), s7)"
    by (simp add: js_defs pr6 a s7_def startAutoRefresh_result[OF sa])
  have doc7: "document s7 = D" and di7: "deviceInfo (state s7) = Some info"
    using doc6 di6 by (simp_all add: s7_def startAutoRefresh_result[OF sa])
  have run: "init_body w now s = (Inr (), s7)"
    unfolding init_body_def
    by (simp only: seq_apply l1 l2 DeviceInfo_init_result l3 l5 l6 l7 prod.case sum.case)
  show "fst (init_body w now s) = Inr ()" by (simp add: run)
  show "ui_phase (snd (init_body w now s)) = Ready"
    by (simp add: run ui_phase_def doc7 Dl Dc l0_def dc0_def)
  show "deviceInfo (state (snd (init_body w now s))) = Some
          \<lparr>model = model d, platform = platform d, operatingSystem = operatingSystem d,
           osVersion = osVersion d, manufacturer = manufacturer d, isVirtual = isVirtual d,
           battery = battery d, network = Some n, appVersion = getAppVersion,
           uptime = getUptime (Some (case appStartTime (localStorage s) of
                                       None \<Rightarrow> now | Some t \<Rightarrow> t)) now\<rparr>"
    by (simp add: run di7 info_def)
qed

lemma init_cases:
  "init w now s =
     (case init_body w now s of
        (Inl e, s') \<Rightarrow>
          (Inr (), case document s' ''loading'' of
                     None \<Rightarrow> s'
                   | Some l \<Rightarrow> s'\<lparr>document := (document s')
                       (''loading'' \<mapsto> l\<lparr>innerHTML := ErrorView str_init_failed\<rparr>)\<rparr>)
      | (Inr v, s') \<Rightarrow> (Inr v, s'))"
  by (auto simp: init_def tryCatch_def showError_def split: prod.splits sum.splits option.splits)

lemma failing_providers_fall_back:
  assumes "Capacitor_Plugins w = Some p"
    and "Device p = Some dev" and "getInfo dev = Inl e1"
    and "Network p = Some net" and "getStatus net = Inl e3"
  shows "getDeviceInfo w = Inr getFallbackDeviceInfo"
    and "getNetworkStatus w = Inr getFallbackNetworkStatus"
  using assms
  by (simp_all add: getDeviceInfo_def getNetworkStatus_def getPlugins_def try_catch_def bind_js_def)

text \<open>
  C5, as the code has it. When every capability provider call fails during \<open>init\<close>,
  the fallbacks of the information module absorb the failures: with the container
  element present and preferences that are not null, the try block completes, the page
  reaches the ready phase and the snapshot holds the fallback device and network values.
  \<open>init\<close> itself never throws. When an error does escape the try block, the catch
  calls \<open>showError\<close>, which replaces the content of the loading element by the error
  view with its retry control if that element exists; the page is then in the error
  phase if the loading element is visible.
\<close>

theorem init_outcomes:
  "(document s ''app'' = Some c
      \<and> preferences (state (snd (loadPreferences s))) \<noteq> Null
      \<and> preferences (state (snd (loadPreferences s))) \<noteq> Undefined
      \<and> Capacitor_Plugins w = Some p
      \<and> Device p = Some dev \<and> getInfo dev = Inl e1 \<and> getBatteryInfo dev = Inl e2
      \<and> Network p = Some net \<and> getStatus net = Inl e3 \<and> addListener net = Inl e4
      \<and> LocalNotifications p = Some np \<and> requestPermissions np = Inl e5
     \<longrightarrow> fst (init_body w now s) = Inr ()
       \<and> ui_phase (snd (init w now s)) = Ready
       \<and> deviceInfo (state (snd (init w now s))) = Some
           \<lparr>model = str_ios_device, platform = ''ios'', operatingSystem = ''iOS'',
            osVersion = str_unknown, manufacturer = ''Apple'', isVirtual = False,
            battery = Some \<lparr>level = Some 1, charging = Some False\<rparr>,
            network = Some \<lparr>connected = False, connectionType = Some ''none'',
                            typeText = Some str_cannot_get\<rparr>,
            appVersion = ''1.0.0'',
            uptime = getUptime (Some (case appStartTime (localStorage s) of
                                        None \<Rightarrow> now | Some t \<Rightarrow> t)) now\<rparr>)
   \<and> fst (init w now s) = Inr ()
   \<and> (fst (init_body w now s) = Inl e \<longrightarrow>
        document (snd (init w now s)) ''loading'' =
          map_option (\<lambda>l. l\<lparr>innerHTML := ErrorView str_init_failed\<rparr>)
            (document (snd (init_body w now s)) ''loading'')
        \<and> (\<forall>l. document (snd (init_body w now s)) ''loading'' = Some l
                \<and> ''hidden'' \<notin> classes l \<longrightarrow> ui_phase (snd (init w now s)) = Error))"
proof (intro conjI impI)
  assume h: "document s ''app'' = Some c
      \<and> preferences (state (snd (loadPreferences s))) \<noteq> Null
      \<and> preferences (state (snd (loadPreferences s))) \<noteq> Undefined
      \<and> Capacitor_Plugins w = Some p
      \<and> Device p = Some dev \<and> getInfo dev = Inl e1 \<and> getBatteryInfo dev = Inl e2
      \<and> Network p = Some net \<and> getStatus net = Inl e3 \<and> addListener net = Inl e4
      \<and> LocalNotifications p = Some np \<and> requestPermissions np = Inl e5"
  have d: "getDeviceInfo w = Inr getFallbackDeviceInfo"
    and n: "getNetworkStatus w = Inr getFallbackNetworkStatus"
    using failing_providers_fall_back[of w p dev e1 net e3] h by simp_all
  have app: "document s ''app'' = Some c" using h by simp
  have nn: "preferences (state (snd (loadPreferences s))) \<noteq> Null"
    "preferences (state (snd (loadPreferences s))) \<noteq> Undefined" using h by simp_all
  note r = init_ready[OF app nn d n, of now]
  show b: "fst (init_body w now s) = Inr ()" by (rule r(1))
  have same: "snd (init w now s) = snd (init_body w now s)"
    using b by (cases "init_body w now s") (auto simp: init_cases)
  show "ui_phase (snd (init w now s)) = Ready"
    unfolding same by (rule r(2))
  show "deviceInfo (state (snd (init w now s))) = Some
           \<lparr>model = str_ios_device, platform = ''ios'', operatingSystem = ''iOS'',
            osVersion = str_unknown, manufacturer = ''Apple'', isVirtual = False,
            battery = Some \<lparr>level = Some 1, charging = Some False\<rparr>,
            network = Some \<lparr>connected = False, connectionType = Some ''none'',
                            typeText = Some str_cannot_get\<rparr>,
            appVersion = ''1.0.0'',
            uptime = getUptime (Some (case appStartTime (localStorage s) of
                                        None \<Rightarrow> now | Some t \<Rightarrow> t)) now\<rparr>"
    unfolding same r(3)
    by (simp add: getFallbackDeviceInfo_def getFallbackNetworkStatus_def getAppVersion_def)
next
  show "fst (init w now s) = Inr ()"
    by (simp add: init_cases split: prod.splits sum.splits)
next
  assume f: "fst (init_body w now s) = Inl e"
  show "document (snd (init w now s)) ''loading'' =
          map_option (\<lambda>l. l\<lparr>innerHTML := ErrorView str_init_failed\<rparr>)
            (document (snd (init_body w now s)) ''loading'')"
    using f by (auto simp: init_cases split: prod.splits sum.splits option.splits)
next
  assume f: "fst (init_body w now s) = Inl e"
  show "\<forall>l. document (snd (init_body w now s)) ''loading'' = Some l
                \<and> ''hidden'' \<notin> classes l \<longrightarrow> ui_phase (snd (init w now s)) = Error"
    using f by (auto simp: init_cases ui_phase_def split: prod.splits sum.splits option.splits)
qed

lemmas init_eval_defs = init_def init_body_def js_defs fresh_page_def
      loadPreferences_def set_preferences_def getDefaultPreferences_def DeviceInfo_init_def
      getPlugins_def renderUI_def get_prop_def truthy_def shell_elements_def loadDeviceInfo_def
      getAllInfo_def getDeviceInfo_def getNetworkStatus_def try_catch_def bind_js_def
      updateUI_def classList_add_def classList_remove_def on_element_def set_innerHTML_def
      renderDeviceInfo_def renderBatteryInfo_def renderNetworkInfo_def renderAppInfo_def
      setupNetworkListener_def addNetworkListener_def initial_state_def Let_def showError_def
      JSON_parse_def skip_ws_def is_ws_def is_digit_def

text \<open>With every provider stubbed to throw, a page that has the container and no stored
  preferences ends ready, not in the error phase.\<close>

theorem init_failing_providers_counterexample:
  "ui_phase (snd (init failing_bridge 1700000000000
      (fresh_page \<lparr>appStartTime = None, appPreferences = None\<rparr>
         [''app'' \<mapsto> \<lparr>classes = {}, innerHTML = Blank\<rparr>]))) = Ready
   \<and> ui_phase (snd (init failing_bridge 1700000000000
      (fresh_page \<lparr>appStartTime = None, appPreferences = None\<rparr>
         [''app'' \<mapsto> \<lparr>classes = {}, innerHTML = Blank\<rparr>]))) \<noteq> Error"
  by (simp add: init_eval_defs failing_bridge_def ui_phase_def)

theorem init_outcomes_witness:
  "ui_phase (snd (init failing_bridge 1700000000000
      (fresh_page \<lparr>appStartTime = None, appPreferences = None\<rparr>
         [''app'' \<mapsto> \<lparr>classes = {}, innerHTML = Blank\<rparr>]))) = Ready
   \<and> fst (init_body failing_bridge 1700000000000
      (fresh_page \<lparr>appStartTime = None, appPreferences = Some ''null''\<rparr>
         [''app'' \<mapsto> \<lparr>classes = {}, innerHTML = Blank\<rparr>,
          ''loading'' \<mapsto> \<lparr>classes = {''loading''}, innerHTML = Spinner\<rparr>])) = Inl TypeError
   \<and> document (snd (init failing_bridge 1700000000000
      (fresh_page \<lparr>appStartTime = None, appPreferences = Some ''null''\<rparr>
         [''app'' \<mapsto> \<lparr>classes = {}, innerHTML = Blank\<rparr>,
          ''loading'' \<mapsto> \<lparr>classes = {''loading''}, innerHTML = Spinner\<rparr>]))) ''loading''
       = Some \<lparr>classes = {''loading''}, innerHTML = ErrorView str_init_failed\<rparr>
   \<and> ui_phase (snd (init failing_bridge 1700000000000
      (fresh_page \<lparr>appStartTime = None, appPreferences = Some ''null''\<rparr>
         [''app'' \<mapsto> \<lparr>classes = {}, innerHTML = Blank\<rparr>,
          ''loading'' \<mapsto> \<lparr>classes = {''loading''}, innerHTML = Spinner\<rparr>]))) = Error"
proof -
  let ?ok = "fresh_page \<lparr>appStartTime = None, appPreferences = None\<rparr>
         [''app'' \<mapsto> \<lparr>classes = {}, innerHTML = Blank\<rparr>]"
  let ?bad = "fresh_page \<lparr>appStartTime = None, appPreferences = Some ''null''\<rparr>
         [''app'' \<mapsto> \<lparr>classes = {}, innerHTML = Blank\<rparr>,
          ''loading'' \<mapsto> \<lparr>classes = {''loading''}, innerHTML = Spinner\<rparr>]"
  have p: "preferences (state (snd (loadPreferences ?ok))) = getDefaultPreferences"
    by (simp add: loadPreferences_cases fresh_page_def)
  have body: "init_body failing_bridge 1700000000000 ?bad =
      (Inl TypeError, ?bad\<lparr>localStorage := \<lparr>appStartTime = Some 1700000000000,
                                            appPreferences = Some ''null''\<rparr>,
                           state := initial_state\<lparr>preferences := Null\<rparr>\<rparr>)"
    by (simp add: init_eval_defs failing_bridge_def)
  let ?dev = "\<lparr>getInfo = Inl (ProviderError ''stub''),
               getBatteryInfo = Inl (ProviderError ''stub'')\<rparr>"
  let ?net = "\<lparr>getStatus = Inl (ProviderError ''stub''),
               addListener = Inl (ProviderError ''stub'')\<rparr>"
  let ?np = "\<lparr>requestPermissions = Inl (ProviderError ''stub''),
              schedule = Inl (ProviderError ''stub'')\<rparr>"
  let ?p = "\<lparr>Device = Some ?dev, Network = Some ?net,
             Haptics = Some \<lparr>impact = Inl (ProviderError ''stub'')\<rparr>,
             LocalNotifications = Some ?np,
             Clipboard = Some \<lparr>clipboard_write = Inl (ProviderError ''stub'')\<rparr>\<rparr>"
  have h_doc: "document ?ok ''app'' = Some \<lparr>classes = {}, innerHTML = Blank\<rparr>"
    by (simp add: fresh_page_def)
  have h_pref: "preferences (state (snd (loadPreferences ?ok))) \<noteq> Null"
    "preferences (state (snd (loadPreferences ?ok))) \<noteq> Undefined"
    by (simp_all add: p getDefaultPreferences_def)
  have h_br: "Capacitor_Plugins failing_bridge = Some ?p"
    by (simp add: failing_bridge_def)
  have hyps: "document ?ok ''app'' = Some \<lparr>classes = {}, innerHTML = Blank\<rparr>
      \<and> preferences (state (snd (loadPreferences ?ok))) \<noteq> Null
      \<and> preferences (state (snd (loadPreferences ?ok))) \<noteq> Undefined
      \<and> Capacitor_Plugins failing_bridge = Some ?p
      \<and> Device ?p = Some ?dev \<and> getInfo ?dev = Inl (ProviderError ''stub'')
      \<and> getBatteryInfo ?dev = Inl (ProviderError ''stub'')
      \<and> Network ?p = Some ?net \<and> getStatus ?net = Inl (ProviderError ''stub'')
      \<and> addListener ?net = Inl (ProviderError ''stub'')
      \<and> LocalNotifications ?p = Some ?np
      \<and> requestPermissions ?np = Inl (ProviderError ''stub'')"
    using h_doc h_pref h_br by simp
  have a: "ui_phase (snd (init failing_bridge 1700000000000 ?ok)) = Ready"
    using init_outcomes [of ?ok "\<lparr>classes = {}, innerHTML = Blank\<rparr>" failing_bridge ?p ?dev
        "ProviderError ''stub''" "ProviderError ''stub''" ?net
        "ProviderError ''stub''" "ProviderError ''stub''" ?np "ProviderError ''stub''"
        1700000000000 TypeError, THEN conjunct1, THEN mp, OF hyps]
    by blast
  have fstb: "fst (init_body failing_bridge 1700000000000 ?bad) = Inl TypeError"
    by (simp add: body)
  have docb: "document (snd (init_body failing_bridge 1700000000000 ?bad)) ''loading''
       = Some \<lparr>classes = {''loading''}, innerHTML = Spinner\<rparr>"
    unfolding body by (simp add: fresh_page_def)
  have b: "document (snd (init failing_bridge 1700000000000 ?bad)) ''loading''
       = Some \<lparr>classes = {''loading''}, innerHTML = ErrorView str_init_failed\<rparr>
     \<and> ui_phase (snd (init failing_bridge 1700000000000 ?bad)) = Error"
    using init_outcomes [of ?bad _ failing_bridge _ _ _ _ _ _ _ _ _ 1700000000000 TypeError,
        THEN conjunct2, THEN conjunct2, THEN mp, OF fstb]
    by (simp add: docb)
  show ?thesis using a b fstb by simp
qed

subsection \<open>Preferences: saving and loading\<close>

text \<open>From here on the recursive equation of \<open>show_nat\<close> is applied by hand only.\<close>

declare show_nat.simps [simp del]


lemma digit_char_cases:
  "is_digit (digit_char d) \<and> digit_val (digit_char d) = d mod 10
     \<and> (digit_char d = CHR ''0'' \<longleftrightarrow> d mod 10 = 0)"
proof -
  have "d mod 10 < 10" by simp
  then consider "d mod 10 = 0" | "d mod 10 = 1" | "d mod 10 = 2" | "d mod 10 = 3"
    | "d mod 10 = 4" | "d mod 10 = 5" | "d mod 10 = 6" | "d mod 10 = 7" | "d mod 10 = 8"
    | "d mod 10 = 9"
    by atomize_elim arith
  then show ?thesis
    by cases (simp_all add: digit_char_def digit_val_def is_digit_def)
qed

lemma is_digit_digit_char: "is_digit (digit_char d)"
  using digit_char_cases[of d] by blast

lemma show_nat_digits: "\<forall>c \<in> set (show_nat n). is_digit c"
proof (induction n rule: show_nat.induct)
  case (1 n)
  show ?case
  proof (cases "n < 10")
    case True
    then show ?thesis by (subst show_nat.simps) (simp add: is_digit_digit_char)
  next
    case False
    then show ?thesis
      using 1 by (subst show_nat.simps) (auto simp: is_digit_digit_char)
  qed
qed

lemma nat_of_digits_snoc: "nat_of_digits (ds @ [c]) = 10 * nat_of_digits ds + digit_val c"
  by (simp add: nat_of_digits_def)

lemma nat_of_digits_show_nat: "nat_of_digits (show_nat n) = n"
proof (induction n rule: show_nat.induct)
  case (1 n)
  show ?case
  proof (cases "n < 10")
    case True
    then show ?thesis
      using digit_char_cases[of n] by (subst show_nat.simps) (simp add: nat_of_digits_def)
  next
    case False
    then have "nat_of_digits (show_nat n) = 10 * (n div 10) + n mod 10"
      using 1 digit_char_cases[of "n mod 10"]
      by (subst show_nat.simps) (simp add: nat_of_digits_snoc)
    then show ?thesis by simp
  qed
qed

lemma show_nat_hd: "\<exists>c cs. show_nat n = c # cs \<and> is_digit c \<and> (c = CHR ''0'' \<longleftrightarrow> n = 0)"
proof (induction n rule: show_nat.induct)
  case (1 n)
  show ?case
  proof (cases "n < 10")
    case True
    then show ?thesis
      using digit_char_cases[of n] by (subst show_nat.simps) simp
  next
    case False
    from 1[OF False] obtain c cs where "show_nat (n div 10) = c # cs" "is_digit c"
      "c = CHR ''0'' \<longleftrightarrow> n div 10 = 0"
      by auto
    then show ?thesis
      using False by (subst show_nat.simps) auto
  qed
qed

lemma show_nat_zero: "show_nat 0 = ''0''"
  by (simp add: show_nat.simps digit_char_def)

lemma takeWhile_digits:
  assumes "\<not> is_digit c"
  shows "takeWhile is_digit (show_nat n @ c # rest) = show_nat n"
    and "dropWhile is_digit (show_nat n @ c # rest) = c # rest"
  using assms show_nat_digits[of n]
  by (simp_all add: takeWhile_append2 dropWhile_append2)

lemma parse_int_part_show_nat:
  assumes "\<not> is_digit c"
  shows "parse_int_part (show_nat n @ c # rest) = Some (n, c # rest)"
proof (cases "n = 0")
  case True
  show ?thesis unfolding True show_nat_zero by (simp add: parse_int_part_def)
next
  case False
  obtain d ds where d: "show_nat n = d # ds" "is_digit d" "d \<noteq> CHR ''0''"
    using show_nat_hd[of n] False by auto
  have "parse_int_part (show_nat n @ c # rest) =
          Some (nat_of_digits (takeWhile is_digit (show_nat n @ c # rest)),
                dropWhile is_digit (show_nat n @ c # rest))"
    unfolding parse_int_part_def d using d(2,3) by simp
  then show ?thesis
    by (simp add: takeWhile_digits[OF assms] nat_of_digits_show_nat)
qed

lemma parse_number_unsigned:
  assumes "s = d # t" and "d \<noteq> CHR ''-''"
    and "parse_int_part s = Some (m, c # rest)"
    and "c \<noteq> CHR ''.''" and "c \<noteq> CHR ''e''" and "c \<noteq> CHR ''E''"
  shows "parse_number s = Some (of_nat m, c # rest)"
  using assms(2-) unfolding parse_number_def assms(1)
  by (simp add: parse_fraction_def parse_exponent_def)

lemma parse_number_negative:
  assumes "parse_int_part t = Some (m, c # rest)"
    and "c \<noteq> CHR ''.''" and "c \<noteq> CHR ''e''" and "c \<noteq> CHR ''E''"
  shows "parse_number (CHR ''-'' # t) = Some (- of_nat m, c # rest)"
  using assms unfolding parse_number_def
  by (simp add: parse_fraction_def parse_exponent_def)

lemma parse_number_show_int:
  assumes "\<not> is_digit c" and "c \<noteq> CHR ''.''" and "c \<noteq> CHR ''e''" and "c \<noteq> CHR ''E''"
  shows "parse_number (show_int n @ c # rest) = Some (of_int n, c # rest)"
proof (cases "n < 0")
  case True
  have "parse_number (CHR ''-'' # show_nat (nat (- n)) @ c # rest) =
          Some (- of_nat (nat (- n)), c # rest)"
    by (rule parse_number_negative[OF parse_int_part_show_nat[OF assms(1)] assms(2-)])
  then show ?thesis using True by (simp add: show_int_def)
next
  case False
  obtain d ds where d: "show_nat (nat n) = d # ds" "is_digit d"
    using show_nat_hd[of "nat n"] by auto
  have nd: "d \<noteq> CHR ''-''" using d(2) by (auto simp: is_digit_def)
  have e: "show_nat (nat n) @ c # rest = d # (ds @ c # rest)" by (simp add: d)
  have "parse_number (show_nat (nat n) @ c # rest) = Some (of_nat (nat n), c # rest)"
    by (rule parse_number_unsigned[OF e nd parse_int_part_show_nat[OF assms(1)] assms(2-)])
  then show ?thesis using False by (simp add: show_int_def)
qed


lemma show_int_hd: "\<exists>c cs. show_int n = c # cs \<and> (c = CHR ''-'' \<or> is_digit c)"
  using show_nat_hd[of "nat n"] by (auto simp: show_int_def)

lemma is_digit_not_ws: "is_digit c \<Longrightarrow> \<not> is_ws c"
  by (auto simp: is_digit_def is_ws_def)

lemma parse_value_show_int:
  assumes "c = CHR '','' \<or> c = CHR ''}''"
  shows "parse_value (Suc f) (show_int n @ c # rest) = Some (Num (of_int n), c # rest)"
proof -
  obtain d ds where d: "show_int n = d # ds" "d = CHR ''-'' \<or> is_digit d"
    using show_int_hd[of n] by auto
  have nws: "\<not> is_ws d" using d(2) is_digit_not_ws by (auto simp: is_ws_def)
  have nb: "d \<noteq> CHR ''{''" "d \<noteq> CHR ''[''" "d \<noteq> CHR 0x22"
    using d(2) by (auto simp: is_digit_def)
  have c: "\<not> is_digit c" "c \<noteq> CHR ''.''" "c \<noteq> CHR ''e''" "c \<noteq> CHR ''E''"
    using assms by (auto simp: is_digit_def)
  have pn: "parse_number (d # (ds @ c # rest)) = Some (of_int n, c # rest)"
    using parse_number_show_int[OF c, of n rest] by (simp add: d)
  have "parse_value (Suc f) (d # (ds @ c # rest)) = Some (Num (of_int n), c # rest)"
    using nws nb d(2) by (simp add: skip_ws_def pn)
  then show ?thesis by (simp add: d)
qed

lemma parse_value_bool:
  assumes "c = CHR '','' \<or> c = CHR ''}''"
  shows "parse_value (Suc f) ((if b then ''true'' else ''false'') @ c # rest) =
           Some (Bool b, c # rest)"
  by (cases b) (simp_all add: skip_ws_def is_ws_def is_digit_def)

lemma stringify_Preferences:
  "JSON_stringify (Preferences a n b c d) =
     Some (CHR ''{'' # JSON_quote ''autoRefresh'' @ CHR '':'' # (if a then ''true'' else ''false'')
       @ CHR '','' # JSON_quote ''refreshInterval'' @ CHR '':'' # show_int n
       @ CHR '','' # JSON_quote ''showBattery'' @ CHR '':'' # (if b then ''true'' else ''false'')
       @ CHR '','' # JSON_quote ''showNetwork'' @ CHR '':'' # (if c then ''true'' else ''false'')
       @ CHR '','' # JSON_quote ''showUptime'' @ CHR '':'' # (if d then ''true'' else ''false'')
       @ ''}'')"
  by (simp add: Preferences_def show_num_def)


lemma parse_members_step:
  assumes key: "parse_chars ks = Some (k, CHR '':'' # vs)"
    and val: "parse_value f vs = Some (v, e # es)"
    and e: "e = CHR '','' \<or> e = CHR ''}''"
  shows "parse_members (Suc f) acc (CHR 0x22 # ks) =
           (if e = CHR '','' then parse_members f (obj_put acc k v) es
            else Some (obj_put acc k v, es))"
  using e by (auto simp: skip_ws_def is_ws_def key val)

lemma parse_object_start:
  "parse_value (Suc f) (CHR ''{'' # CHR 0x22 # ks) =
     map_option (\<lambda>(kvs, r). (Obj kvs, r)) (parse_members f [] (CHR 0x22 # ks))"
  by (simp add: skip_ws_def is_ws_def)

lemma parse_Preferences_text:
  "parse_value (Suc (Suc (Suc (Suc (Suc (Suc (Suc f)))))))
     (CHR ''{'' # JSON_quote ''autoRefresh'' @ CHR '':'' # (if a then ''true'' else ''false'')
       @ CHR '','' # JSON_quote ''refreshInterval'' @ CHR '':'' # show_int n
       @ CHR '','' # JSON_quote ''showBattery'' @ CHR '':'' # (if b then ''true'' else ''false'')
       @ CHR '','' # JSON_quote ''showNetwork'' @ CHR '':'' # (if c then ''true'' else ''false'')
       @ CHR '','' # JSON_quote ''showUptime'' @ CHR '':'' # (if d then ''true'' else ''false'')
       @ ''}'')
   = Some (Preferences a n b c d, [])"
proof -
  define t5 where "t5 = JSON_quote ''showUptime'' @ CHR '':'' # (if d then ''true'' else ''false'') @ ''}''"
  define t4 where "t4 = JSON_quote ''showNetwork'' @ CHR '':'' # (if c then ''true'' else ''false'')
       @ CHR '','' # t5"
  define t3 where "t3 = JSON_quote ''showBattery'' @ CHR '':'' # (if b then ''true'' else ''false'')
       @ CHR '','' # t4"
  define t2 where "t2 = JSON_quote ''refreshInterval'' @ CHR '':'' # show_int n @ CHR '','' # t3"
  define t1 where "t1 = JSON_quote ''autoRefresh'' @ CHR '':'' # (if a then ''true'' else ''false'')
       @ CHR '','' # t2"
  have k: "\<And>r. parse_chars (''showUptime'' @ CHR 0x22 # CHR '':'' # r)
               = Some (''showUptime'', CHR '':'' # r)"
    "\<And>r. parse_chars (''showNetwork'' @ CHR 0x22 # CHR '':'' # r)
               = Some (''showNetwork'', CHR '':'' # r)"
    "\<And>r. parse_chars (''showBattery'' @ CHR 0x22 # CHR '':'' # r)
               = Some (''showBattery'', CHR '':'' # r)"
    "\<And>r. parse_chars (''refreshInterval'' @ CHR 0x22 # CHR '':'' # r)
               = Some (''refreshInterval'', CHR '':'' # r)"
    "\<And>r. parse_chars (''autoRefresh'' @ CHR 0x22 # CHR '':'' # r)
               = Some (''autoRefresh'', CHR '':'' # r)"
    by simp_all
  have m5: "\<And>acc. parse_members (Suc (Suc f)) acc t5 = Some (obj_put acc ''showUptime'' (Bool d), [])"
    unfolding t5_def JSON_quote_def
    using parse_members_step[OF k(1) parse_value_bool[of "CHR ''}''" f d "[]"]]
    by (simp add: quote_char_def del: parse_members.simps parse_value.simps)
  have m4: "\<And>acc. parse_members (Suc (Suc (Suc f))) acc t4 =
      Some (obj_put (obj_put acc ''showNetwork'' (Bool c)) ''showUptime'' (Bool d), [])"
    unfolding t4_def JSON_quote_def
    using parse_members_step[OF k(2) parse_value_bool[of "CHR '',''" "Suc f" c t5]]
    by (simp add: quote_char_def m5 del: parse_members.simps parse_value.simps)
  have m3: "\<And>acc. parse_members (Suc (Suc (Suc (Suc f)))) acc t3 =
      Some (obj_put (obj_put (obj_put acc ''showBattery'' (Bool b)) ''showNetwork'' (Bool c))
              ''showUptime'' (Bool d), [])"
    unfolding t3_def JSON_quote_def
    using parse_members_step[OF k(3) parse_value_bool[of "CHR '',''" "Suc (Suc f)" b t4]]
    by (simp add: quote_char_def m4 del: parse_members.simps parse_value.simps)
  have m2: "\<And>acc. parse_members (Suc (Suc (Suc (Suc (Suc f))))) acc t2 =
      Some (obj_put (obj_put (obj_put (obj_put acc ''refreshInterval'' (Num (of_int n)))
              ''showBattery'' (Bool b)) ''showNetwork'' (Bool c)) ''showUptime'' (Bool d), [])"
    unfolding t2_def JSON_quote_def
    using parse_members_step[OF k(4) parse_value_show_int[of "CHR '',''" "Suc (Suc (Suc f))" n t3]]
    by (simp add: quote_char_def m3 del: parse_members.simps parse_value.simps)
  have m1: "\<And>acc. parse_members (Suc (Suc (Suc (Suc (Suc (Suc f)))))) acc t1 =
      Some (obj_put (obj_put (obj_put (obj_put (obj_put acc ''autoRefresh'' (Bool a))
              ''refreshInterval'' (Num (of_int n)))
              ''showBattery'' (Bool b)) ''showNetwork'' (Bool c)) ''showUptime'' (Bool d), [])"
    unfolding t1_def JSON_quote_def
    using parse_members_step[OF k(5) parse_value_bool[of "CHR '',''" "Suc (Suc (Suc (Suc f)))" a t2]]
    by (simp add: quote_char_def m2 del: parse_members.simps parse_value.simps)
  have obj: "obj_put (obj_put (obj_put (obj_put (obj_put [] ''autoRefresh'' (Bool a))
              ''refreshInterval'' (Num (of_int n)))
              ''showBattery'' (Bool b)) ''showNetwork'' (Bool c)) ''showUptime'' (Bool d)
           = [(''autoRefresh'', Bool a), (''refreshInterval'', Num (of_int n)),
              (''showBattery'', Bool b), (''showNetwork'', Bool c), (''showUptime'', Bool d)]"
    by (simp add: obj_put_def)
  have q: "t1 = CHR 0x22 # tl t1"
    by (simp add: t1_def JSON_quote_def)
  have "parse_value (Suc (Suc (Suc (Suc (Suc (Suc (Suc f))))))) (CHR ''{'' # t1)
          = Some (Preferences a n b c d, [])"
    by (subst q, subst parse_object_start, subst q[symmetric]) (simp add: m1 obj Preferences_def del: parse_members.simps parse_value.simps)
  then show ?thesis
    by (simp add: t1_def t2_def t3_def t4_def t5_def del: parse_members.simps parse_value.simps)
qed


lemma JSON_roundtrip_Preferences:
  assumes "JSON_stringify (Preferences a n b c d) = Some t"
  shows "JSON_parse t = Inr (Preferences a n b c d)" and "t \<noteq> []"
proof -
  have t: "t = CHR ''{'' # JSON_quote ''autoRefresh'' @ CHR '':'' # (if a then ''true'' else ''false'')
       @ CHR '','' # JSON_quote ''refreshInterval'' @ CHR '':'' # show_int n
       @ CHR '','' # JSON_quote ''showBattery'' @ CHR '':'' # (if b then ''true'' else ''false'')
       @ CHR '','' # JSON_quote ''showNetwork'' @ CHR '':'' # (if c then ''true'' else ''false'')
       @ CHR '','' # JSON_quote ''showUptime'' @ CHR '':'' # (if d then ''true'' else ''false'')
       @ ''}''"
    using assms by (simp add: stringify_Preferences)
  show "t \<noteq> []" by (simp add: t)
  have "6 \<le> length t"
    by (simp add: t JSON_quote_def)
  then have fuel: "Suc (length t) = Suc (Suc (Suc (Suc (Suc (Suc (Suc (length t - 6)))))))"
    by simp
  have "parse_value (Suc (length t)) t = Some (Preferences a n b c d, [])"
    unfolding fuel by (subst (2) t) (rule parse_Preferences_text)
  then show "JSON_parse t = Inr (Preferences a n b c d)"
    by (simp add: JSON_parse_def skip_ws_def)
qed

text \<open>
  C8. For every preferences object of the documented shape (three display flags, the
  auto-refresh flag and an integer interval in the range where a JavaScript number is
  exact), saving it with \<open>savePreferences\<close> and loading it with \<open>loadPreferences\<close> in a
  fresh session, which starts from the state literal and keeps only the local storage,
  reproduces the identical object; neither call throws.
\<close>

theorem save_load_roundtrip:
  assumes "preferences (state s) = Preferences a n b c d" and "\<bar>n\<bar> \<le> 2 ^ 53"
  shows "fst (savePreferences s) = Inr ()
     \<and> fst (loadPreferences (fresh_page (localStorage (snd (savePreferences s))) doc)) = Inr ()
     \<and> preferences (state (snd (loadPreferences
          (fresh_page (localStorage (snd (savePreferences s))) doc)))) = Preferences a n b c d"
proof -
  obtain t where t: "JSON_stringify (Preferences a n b c d) = Some t"
    by (simp add: Preferences_def)
  note rt = JSON_roundtrip_Preferences[OF t]
  have saved: "appPreferences (localStorage (snd (savePreferences s))) = Some t"
    by (simp add: savePreferences_def update_def assms(1) t)
  show ?thesis
    using rt saved
    by (simp add: loadPreferences_def savePreferences_def js_defs set_preferences_def
          fresh_page_def)
qed

theorem save_load_roundtrip_witness:
  "preferences (state (snd (loadPreferences (fresh_page (localStorage (snd (savePreferences
      ((fresh_page \<lparr>appStartTime = None, appPreferences = None\<rparr> Map.empty)
         \<lparr>state := initial_state\<lparr>preferences := Preferences True 30000 True False True\<rparr>\<rparr>))))
      Map.empty)))) = Preferences True 30000 True False True"
proof -
  have b: "\<bar>30000 :: int\<bar> \<le> 2 ^ 53" by simp
  show ?thesis
    using save_load_roundtrip [of "(fresh_page \<lparr>appStartTime = None, appPreferences = None\<rparr> Map.empty)
         \<lparr>state := initial_state\<lparr>preferences := Preferences True 30000 True False True\<rparr>\<rparr>"
        True 30000 True False True Map.empty, OF _ b]
    by simp
qed

end
